theory Spec2Isabelle
  imports Complex_Main "HOL-Library.Log_Nat"
begin

section \<open>Numbers of the source language\<close>

text \<open>
  The program is TypeScript; its \<^verbatim>\<open>number\<close> is an IEEE-754 binary64 value (a double):
  a finite value, one of the two infinities, or NaN. A finite double is embedded as the
  real number it denotes. The two zeros are not distinguished. They behave differently
  only as divisors, and the divisors of the program are the literals 100, 10, 0.75, 0.5
  and 0.35 and the square \<^verbatim>\<open>h * h\<close>, which is never the negative zero.
\<close>

datatype number = Finite real | PosInfinity | NegInfinity | NaN

subsection \<open>Rounding to the nearest double\<close>

text \<open>
  Every arithmetic operation computes the exact result and rounds it to the nearest
  double, a tie going to the double with the even significand. \<open>ilog2 x\<close> is the
  exponent of the binade of a positive \<open>x\<close>, that is \<open>\<lfloor>log\<^sub>2 x\<rfloor>\<close>; \<open>ulp x\<close> is the distance
  between neighbouring doubles around \<open>x\<close>, with 52 fraction bits and the least
  exponent \<open>-1022\<close> (below it the doubles are subnormal and equally spaced). A result of
  magnitude \<open>2\<^sup>1\<^sup>0\<^sup>2\<^sup>4\<close> or more after rounding overflows to an infinity.
\<close>

definition ilog2 :: "real \<Rightarrow> int" where
  "ilog2 x = (if 1 \<le> x then bitlen \<lfloor>x\<rfloor> - 1 else - bitlen (\<lceil>1 / x\<rceil> - 1))"

definition round_even :: "real \<Rightarrow> int" where
  "round_even y =
     (let f = \<lfloor>y\<rfloor>; d = y - of_int f in
      if d < 1 / 2 then f else if 1 / 2 < d then f + 1 else if even f then f else f + 1)"

definition ulp :: "real \<Rightarrow> real" where
  "ulp x = 2 powi (max (ilog2 \<bar>x\<bar>) (- 1022) - 52)"

definition rnd :: "real \<Rightarrow> real" where
  "rnd x = of_int (round_even (x / ulp x)) * ulp x"

definition fl :: "real \<Rightarrow> number" where
  "fl x =
     (let r = rnd x in
      if 2 ^ 1024 \<le> r then PosInfinity
      else if r \<le> - (2 ^ 1024) then NegInfinity
      else Finite r)"

text \<open>
  A real number is a double when rounding leaves it as it is. The properties below hold
  for every real argument of \<open>Finite\<close>, the doubles among them, unless they say that an
  argument is a double.
\<close>

definition is_double :: "real \<Rightarrow> bool" where
  "is_double x = (fl x = Finite x)"

subsection \<open>Operators\<close>

text \<open>
  The operators \<^verbatim>\<open>*\<close>, \<^verbatim>\<open>/\<close>, \<^verbatim>\<open>+\<close> and \<^verbatim>\<open>-\<close> with the special values of IEEE-754: NaN
  propagates, infinity times zero, infinity over infinity, zero over zero and the
  difference of equal infinities are NaN.
\<close>

fun js_mul :: "number \<Rightarrow> number \<Rightarrow> number" where
  "js_mul NaN b = NaN"
| "js_mul a NaN = NaN"
| "js_mul (Finite x) (Finite y) = fl (x * y)"
| "js_mul (Finite x) PosInfinity =
     (if x = 0 then NaN else if 0 < x then PosInfinity else NegInfinity)"
| "js_mul (Finite x) NegInfinity =
     (if x = 0 then NaN else if 0 < x then NegInfinity else PosInfinity)"
| "js_mul PosInfinity (Finite y) =
     (if y = 0 then NaN else if 0 < y then PosInfinity else NegInfinity)"
| "js_mul NegInfinity (Finite y) =
     (if y = 0 then NaN else if 0 < y then NegInfinity else PosInfinity)"
| "js_mul PosInfinity PosInfinity = PosInfinity"
| "js_mul PosInfinity NegInfinity = NegInfinity"
| "js_mul NegInfinity PosInfinity = NegInfinity"
| "js_mul NegInfinity NegInfinity = PosInfinity"

fun js_div :: "number \<Rightarrow> number \<Rightarrow> number" where
  "js_div NaN b = NaN"
| "js_div a NaN = NaN"
| "js_div (Finite x) (Finite y) =
     (if y = 0 then (if x = 0 then NaN else if 0 < x then PosInfinity else NegInfinity)
      else fl (x / y))"
| "js_div (Finite x) PosInfinity = Finite 0"
| "js_div (Finite x) NegInfinity = Finite 0"
| "js_div PosInfinity (Finite y) = (if 0 \<le> y then PosInfinity else NegInfinity)"
| "js_div NegInfinity (Finite y) = (if 0 \<le> y then NegInfinity else PosInfinity)"
| "js_div PosInfinity PosInfinity = NaN"
| "js_div PosInfinity NegInfinity = NaN"
| "js_div NegInfinity PosInfinity = NaN"
| "js_div NegInfinity NegInfinity = NaN"

fun js_add :: "number \<Rightarrow> number \<Rightarrow> number" where
  "js_add NaN b = NaN"
| "js_add a NaN = NaN"
| "js_add (Finite x) (Finite y) = fl (x + y)"
| "js_add (Finite x) PosInfinity = PosInfinity"
| "js_add (Finite x) NegInfinity = NegInfinity"
| "js_add PosInfinity (Finite y) = PosInfinity"
| "js_add NegInfinity (Finite y) = NegInfinity"
| "js_add PosInfinity PosInfinity = PosInfinity"
| "js_add PosInfinity NegInfinity = NaN"
| "js_add NegInfinity PosInfinity = NaN"
| "js_add NegInfinity NegInfinity = NegInfinity"

fun js_sub :: "number \<Rightarrow> number \<Rightarrow> number" where
  "js_sub NaN b = NaN"
| "js_sub a NaN = NaN"
| "js_sub (Finite x) (Finite y) = fl (x - y)"
| "js_sub (Finite x) PosInfinity = NegInfinity"
| "js_sub (Finite x) NegInfinity = PosInfinity"
| "js_sub PosInfinity (Finite y) = PosInfinity"
| "js_sub NegInfinity (Finite y) = NegInfinity"
| "js_sub PosInfinity PosInfinity = NaN"
| "js_sub PosInfinity NegInfinity = PosInfinity"
| "js_sub NegInfinity PosInfinity = NegInfinity"
| "js_sub NegInfinity NegInfinity = NaN"

text \<open>
  The program compares numbers with literals only: \<^verbatim>\<open>x < c\<close>, \<^verbatim>\<open>x > c\<close> and \<^verbatim>\<open>x >= c\<close> for a
  finite \<open>c\<close>. Every comparison with NaN is false.
\<close>

fun js_lt :: "number \<Rightarrow> real \<Rightarrow> bool" where
  "js_lt (Finite x) c = (x < c)"
| "js_lt PosInfinity c = False"
| "js_lt NegInfinity c = True"
| "js_lt NaN c = False"

fun js_gt :: "number \<Rightarrow> real \<Rightarrow> bool" where
  "js_gt (Finite x) c = (c < x)"
| "js_gt PosInfinity c = True"
| "js_gt NegInfinity c = False"
| "js_gt NaN c = False"

fun js_ge :: "number \<Rightarrow> real \<Rightarrow> bool" where
  "js_ge (Finite x) c = (c \<le> x)"
| "js_ge PosInfinity c = True"
| "js_ge NegInfinity c = False"
| "js_ge NaN c = False"

text \<open>
  \<open>js_le\<close> is \<^verbatim>\<open>a <= b\<close> between two numbers. The program does not use it; the
  properties of the estimated weeks are stated with it.
\<close>

fun js_le :: "number \<Rightarrow> number \<Rightarrow> bool" where
  "js_le NaN b = False"
| "js_le a NaN = False"
| "js_le NegInfinity b = True"
| "js_le a PosInfinity = True"
| "js_le (Finite x) (Finite y) = (x \<le> y)"
| "js_le (Finite x) NegInfinity = False"
| "js_le PosInfinity b = False"

subsection \<open>The Math functions\<close>

text \<open>
  \<^verbatim>\<open>Math.round\<close> returns the nearest integer and resolves a tie towards positive
  infinity; \<^verbatim>\<open>Math.ceil\<close> returns the least integer not below its argument. Both are exact
  on doubles, keep an infinity and return NaN for NaN. \<^verbatim>\<open>Math.max\<close> and \<^verbatim>\<open>Math.min\<close> return
  NaN when an argument is NaN.
\<close>

fun Math_round :: "number \<Rightarrow> number" where
  "Math_round (Finite x) = Finite (of_int \<lfloor>x + 1 / 2\<rfloor>)"
| "Math_round a = a"

fun Math_ceil :: "number \<Rightarrow> number" where
  "Math_ceil (Finite x) = Finite (of_int \<lceil>x\<rceil>)"
| "Math_ceil a = a"

fun Math_abs :: "number \<Rightarrow> number" where
  "Math_abs (Finite x) = Finite \<bar>x\<bar>"
| "Math_abs PosInfinity = PosInfinity"
| "Math_abs NegInfinity = PosInfinity"
| "Math_abs NaN = NaN"

fun Math_max :: "number \<Rightarrow> number \<Rightarrow> number" where
  "Math_max NaN b = NaN"
| "Math_max a NaN = NaN"
| "Math_max PosInfinity b = PosInfinity"
| "Math_max a PosInfinity = PosInfinity"
| "Math_max NegInfinity b = b"
| "Math_max a NegInfinity = a"
| "Math_max (Finite x) (Finite y) = Finite (max x y)"

fun Math_min :: "number \<Rightarrow> number \<Rightarrow> number" where
  "Math_min NaN b = NaN"
| "Math_min a NaN = NaN"
| "Math_min NegInfinity b = NegInfinity"
| "Math_min a NegInfinity = NegInfinity"
| "Math_min PosInfinity b = b"
| "Math_min a PosInfinity = a"
| "Math_min (Finite x) (Finite y) = Finite (min x y)"

section \<open>Strings of the source language\<close>

text \<open>
  A string of the source is a sequence of UTF-16 code units. The string literals of the
  program are Russian text, all of it in the Basic Multilingual Plane, so each character
  is one code unit. A comment at each literal gives its place in the source and its
  meaning.
\<close>

type_synonym js_string = "nat list"

section \<open>The BMI utilities\<close>

record BmiClass =
  label :: js_string
  "note" :: js_string

definition calculateBmi :: "number \<Rightarrow> number \<Rightarrow> number" where
  "calculateBmi weightKg heightCm =
     (let h = js_div heightCm (Finite 100) in
      js_div weightKg (js_mul h h))"

definition label_underweight :: js_string where
  \<comment> \<open>bmi.ts line 15, 24 code units: Underweight\<close>
  "label_underweight =
   [1053, 1077, 1076, 1086, 1089, 1090, 1072, 1090, 1086, 1095, 1085, 1072, 1103, 32, 1084,
    1072, 1089, 1089, 1072, 32, 1090, 1077, 1083, 1072]"

definition note_underweight :: js_string where
  \<comment> \<open>bmi.ts line 16, 59 code units: advice to discuss diet and regimen with a physician or dietitian\<close>
  "note_underweight =
   [1056, 1077, 1082, 1086, 1084, 1077, 1085, 1076, 1091, 1077, 1090, 1089, 1103, 32, 1086,
    1073, 1089, 1091, 1076, 1080, 1090, 1100, 32, 1087, 1080, 1090, 1072, 1085, 1080, 1077,
    32, 1080, 32, 1088, 1077, 1078, 1080, 1084, 32, 1089, 32, 1074, 1088, 1072, 1095, 1086,
    1084, 47, 1076, 1080, 1077, 1090, 1086, 1083, 1086, 1075, 1086, 1084, 46]"

definition label_normal :: js_string where
  \<comment> \<open>bmi.ts line 21, 21 code units: Normal weight\<close>
  "label_normal =
   [1053, 1086, 1088, 1084, 1072, 1083, 1100, 1085, 1072, 1103, 32, 1084, 1072, 1089, 1089,
    1072, 32, 1090, 1077, 1083, 1072]"

definition note_normal :: js_string where
  \<comment> \<open>bmi.ts line 22, 42 code units: advice to keep the current activity and diet\<close>
  "note_normal =
   [1055, 1086, 1076, 1076, 1077, 1088, 1078, 1080, 1074, 1072, 1081, 1090, 1077, 32, 1090,
    1077, 1082, 1091, 1097, 1091, 1102, 32, 1072, 1082, 1090, 1080, 1074, 1085, 1086, 1089,
    1090, 1100, 32, 1080, 32, 1088, 1072, 1094, 1080, 1086, 1085, 46]"

definition label_overweight :: js_string where
  \<comment> \<open>bmi.ts line 27, 21 code units: Overweight\<close>
  "label_overweight =
   [1048, 1079, 1073, 1099, 1090, 1086, 1095, 1085, 1072, 1103, 32, 1084, 1072, 1089, 1089,
    1072, 32, 1090, 1077, 1083, 1072]"

definition note_overweight :: js_string where
  \<comment> \<open>bmi.ts line 28, 53 code units: moderate activity and a diet adjustment are beneficial\<close>
  "note_overweight =
   [1055, 1086, 1083, 1077, 1079, 1085, 1099, 32, 1091, 1084, 1077, 1088, 1077, 1085, 1085,
    1072, 1103, 32, 1072, 1082, 1090, 1080, 1074, 1085, 1086, 1089, 1090, 1100, 32, 1080,
    32, 1082, 1086, 1088, 1088, 1077, 1082, 1090, 1080, 1088, 1086, 1074, 1082, 1072, 32,
    1087, 1080, 1090, 1072, 1085, 1080, 1103, 46]"

definition label_obesity1 :: js_string where
  \<comment> \<open>bmi.ts line 33, 18 code units: Obesity class I\<close>
  "label_obesity1 =
   [1054, 1078, 1080, 1088, 1077, 1085, 1080, 1077, 32, 73, 32, 1089, 1090, 1077, 1087,
    1077, 1085, 1080]"

definition note_obesity1 :: js_string where
  \<comment> \<open>bmi.ts line 34, 60 code units: advice to consult a specialist and plan a weight loss\<close>
  "note_obesity1 =
   [1056, 1077, 1082, 1086, 1084, 1077, 1085, 1076, 1091, 1077, 1090, 1089, 1103, 32, 1082,
    1086, 1085, 1089, 1091, 1083, 1100, 1090, 1072, 1094, 1080, 1103, 32, 1089, 1087, 1077,
    1094, 1080, 1072, 1083, 1080, 1089, 1090, 1072, 32, 1080, 32, 1087, 1083, 1072, 1085,
    32, 1089, 1085, 1080, 1078, 1077, 1085, 1080, 1103, 32, 1074, 1077, 1089, 1072, 46]"

definition label_obesity2 :: js_string where
  \<comment> \<open>bmi.ts line 39, 19 code units: Obesity class II\<close>
  "label_obesity2 =
   [1054, 1078, 1080, 1088, 1077, 1085, 1080, 1077, 32, 73, 73, 32, 1089, 1090, 1077, 1087,
    1077, 1085, 1080]"

definition note_obesity2 :: js_string where
  \<comment> \<open>bmi.ts line 40, 65 code units: advice of medical supervision and a lifestyle correction\<close>
  "note_obesity2 =
   [1056, 1077, 1082, 1086, 1084, 1077, 1085, 1076, 1091, 1077, 1090, 1089, 1103, 32, 1084,
    1077, 1076, 1080, 1094, 1080, 1085, 1089, 1082, 1086, 1077, 32, 1089, 1086, 1087, 1088,
    1086, 1074, 1086, 1078, 1076, 1077, 1085, 1080, 1077, 32, 1080, 32, 1082, 1086, 1088,
    1088, 1077, 1082, 1094, 1080, 1103, 32, 1086, 1073, 1088, 1072, 1079, 1072, 32, 1078,
    1080, 1079, 1085, 1080, 46]"

definition label_obesity3 :: js_string where
  \<comment> \<open>bmi.ts line 44, 20 code units: Obesity class III\<close>
  "label_obesity3 =
   [1054, 1078, 1080, 1088, 1077, 1085, 1080, 1077, 32, 73, 73, 73, 32, 1089, 1090, 1077,
    1087, 1077, 1085, 1080]"

definition note_obesity3 :: js_string where
  \<comment> \<open>bmi.ts line 45, 63 code units: advice of an urgent medical consultation and comprehensive treatment\<close>
  "note_obesity3 =
   [1056, 1077, 1082, 1086, 1084, 1077, 1085, 1076, 1091, 1077, 1090, 1089, 1103, 32, 1089,
    1088, 1086, 1095, 1085, 1072, 1103, 32, 1082, 1086, 1085, 1089, 1091, 1083, 1100, 1090,
    1072, 1094, 1080, 1103, 32, 1074, 1088, 1072, 1095, 1072, 32, 1080, 32, 1082, 1086,
    1084, 1087, 1083, 1077, 1082, 1089, 1085, 1086, 1077, 32, 1083, 1077, 1095, 1077, 1085,
    1080, 1077, 46]"

definition classifyBmi :: "number \<Rightarrow> BmiClass" where
  "classifyBmi bmi =
     (if js_lt bmi 18.5 then \<lparr>label = label_underweight, note = note_underweight\<rparr>
      else if js_lt bmi 25 then \<lparr>label = label_normal, note = note_normal\<rparr>
      else if js_lt bmi 30 then \<lparr>label = label_overweight, note = note_overweight\<rparr>
      else if js_lt bmi 35 then \<lparr>label = label_obesity1, note = note_obesity1\<rparr>
      else if js_lt bmi 40 then \<lparr>label = label_obesity2, note = note_obesity2\<rparr>
      else \<lparr>label = label_obesity3, note = note_obesity3\<rparr>)"

section \<open>The workout plan\<close>

datatype Goal = Lose | Gain | Fit

record GymPlan =
  strengthSessionsPerWeek :: number
  strengthMinutesPerSession :: number
  cardioSessionsPerWeek :: number
  cardioMinutesPerSession :: number
  stepsPerDay :: number

text \<open>
  The \<^verbatim>\<open>summary\<close> of a plan is a template literal: fixed text with numbers inserted. It is
  embedded as the list of its parts, in order; how an inserted number is printed is not
  modelled.
\<close>

datatype template_part = Text js_string | Value number

text \<open>The plan as the builder returns it.\<close>

record WorkoutPlan =
  goal :: Goal
  targetBmi :: number
  currentWeightKg :: number
  targetWeightKg :: number
  deltaKg :: number
  estimatedWeeks :: number
  summary :: "template_part list"
  gymPlan :: GymPlan
  "notes" :: "js_string list"

definition clamp :: "number \<Rightarrow> number \<Rightarrow> number \<Rightarrow> number" where
  "clamp n mn mx = Math_max mn (Math_min mx n)"

definition round1 :: "number \<Rightarrow> number" where
  "round1 n = js_div (Math_round (js_mul n (Finite 10))) (Finite 10)"

definition weightForBmi :: "number \<Rightarrow> number \<Rightarrow> number" where
  "weightForBmi heightCm bmi =
     (let h = js_div heightCm (Finite 100) in js_mul (js_mul bmi h) h)"

definition summary_lose_head :: js_string where
  \<comment> \<open>part_001 line 99, 28 code units: the text before the target weight: guide: reduce the mass to about\<close>
  "summary_lose_head =
   [1054, 1088, 1080, 1077, 1085, 1090, 1080, 1088, 58, 32, 1089, 1085, 1080, 1079, 1080,
    1090, 1100, 32, 1084, 1072, 1089, 1089, 1091, 32, 1076, 1086, 32, 126]"

definition summary_gain_head :: js_string where
  \<comment> \<open>part_001 line 101, 28 code units: the text before the target weight: guide: gain mass up to about\<close>
  "summary_gain_head =
   [1054, 1088, 1080, 1077, 1085, 1090, 1080, 1088, 58, 32, 1085, 1072, 1073, 1088, 1072,
    1090, 1100, 32, 1084, 1072, 1089, 1089, 1091, 32, 1076, 1086, 32, 126]"

definition summary_kg_bmi :: js_string where
  \<comment> \<open>part_001 lines 99 and 101, 11 code units: the text between the two numbers: kg (BMI about\<close>
  "summary_kg_bmi =
   [32, 1082, 1075, 32, 40, 1048, 1052, 1058, 32, 8776, 32]"

definition summary_close :: js_string where
  \<comment> \<open>part_001 lines 99 and 101, 2 code units: the text after the target BMI: closing bracket and full stop\<close>
  "summary_close =
   [41, 46]"

definition summary_fit_head :: js_string where
  \<comment> \<open>part_001 line 102, 38 code units: the text before the target BMI: guide: improve the form around a BMI of about\<close>
  "summary_fit_head =
   [1054, 1088, 1080, 1077, 1085, 1090, 1080, 1088, 58, 32, 1091, 1083, 1091, 1095, 1096,
    1072, 1090, 1100, 32, 1092, 1086, 1088, 1084, 1091, 32, 1074, 1086, 1082, 1088, 1091,
    1075, 32, 1048, 1052, 1058, 32, 8776, 32]"

definition summary_fit_tail :: js_string where
  \<comment> \<open>part_001 line 102, 30 code units: the text after the target BMI: (strength plus moderate cardio)\<close>
  "summary_fit_tail =
   [32, 40, 1089, 1080, 1083, 1086, 1074, 1099, 1077, 32, 43, 32, 1091, 1084, 1077, 1088,
    1077, 1085, 1085, 1086, 1077, 32, 1082, 1072, 1088, 1076, 1080, 1086, 41, 46]"

definition note_lose_regularity :: js_string where
  \<comment> \<open>part_001 line 107, 71 code units: bet on regularity: strength work to preserve muscle plus moderate cardio\<close>
  "note_lose_regularity =
   [1057, 1090, 1072, 1074, 1082, 1072, 32, 1085, 1072, 32, 1088, 1077, 1075, 1091, 1083,
    1103, 1088, 1085, 1086, 1089, 1090, 1100, 58, 32, 1089, 1080, 1083, 1086, 1074, 1099,
    1077, 32, 1076, 1083, 1103, 32, 1089, 1086, 1093, 1088, 1072, 1085, 1077, 1085, 1080,
    1103, 32, 1084, 1099, 1096, 1094, 32, 43, 32, 1091, 1084, 1077, 1088, 1077, 1085, 1085,
    1086, 1077, 32, 1082, 1072, 1088, 1076, 1080, 1086, 46]"

definition note_lose_contraindications :: js_string where
  \<comment> \<open>part_001 line 110, 91 code units: with contraindications (heart, joints, blood pressure) agree the load with a specialist\<close>
  "note_lose_contraindications =
   [1045, 1089, 1083, 1080, 32, 1077, 1089, 1090, 1100, 32, 1087, 1088, 1086, 1090, 1080,
    1074, 1086, 1087, 1086, 1082, 1072, 1079, 1072, 1085, 1080, 1103, 32, 40, 1089, 1077,
    1088, 1076, 1094, 1077, 47, 1089, 1091, 1089, 1090, 1072, 1074, 1099, 47, 1076, 1072,
    1074, 1083, 1077, 1085, 1080, 1077, 41, 32, 8212, 32, 1089, 1086, 1075, 1083, 1072,
    1089, 1091, 1081, 1090, 1077, 32, 1085, 1072, 1075, 1088, 1091, 1079, 1082, 1091, 32,
    1089, 1086, 32, 1089, 1087, 1077, 1094, 1080, 1072, 1083, 1080, 1089, 1090, 1086, 1084,
    46]"

definition note_gain_progression :: js_string where
  \<comment> \<open>part_001 line 115, 75 code units: for gaining, progressive loads and sufficient nutrition (protein, calories) matter\<close>
  "note_gain_progression =
   [1044, 1083, 1103, 32, 1085, 1072, 1073, 1086, 1088, 1072, 32, 1074, 1072, 1078, 1085,
    1099, 32, 1087, 1088, 1086, 1075, 1088, 1077, 1089, 1089, 1080, 1103, 32, 1085, 1072,
    1075, 1088, 1091, 1079, 1086, 1082, 32, 1080, 32, 1076, 1086, 1089, 1090, 1072, 1090,
    1086, 1095, 1085, 1086, 1077, 32, 1087, 1080, 1090, 1072, 1085, 1080, 1077, 32, 40,
    1073, 1077, 1083, 1086, 1082, 47, 1082, 1072, 1083, 1086, 1088, 1080, 1080, 41, 46]"

definition note_gain_cardio :: js_string where
  \<comment> \<open>part_001 line 117, 59 code units: cardio is kept short, to maintain endurance\<close>
  "note_gain_cardio =
   [1050, 1072, 1088, 1076, 1080, 1086, 32, 1086, 1089, 1090, 1072, 1074, 1083, 1103, 1077,
    1084, 32, 1082, 1086, 1088, 1086, 1090, 1082, 1080, 1084, 44, 32, 1095, 1090, 1086,
    1073, 1099, 32, 1087, 1086, 1076, 1076, 1077, 1088, 1078, 1080, 1074, 1072, 1090, 1100,
    32, 1074, 1099, 1085, 1086, 1089, 1083, 1080, 1074, 1086, 1089, 1090, 1100, 46]"

definition note_fit_prefix :: js_string where
  \<comment> \<open>part_001 line 121, 7 code units: first operand of the concatenation: the word for "Assessment" and a space\<close>
  "note_fit_prefix =
   [1054, 1094, 1077, 1085, 1082, 1072, 32]"

definition note_fit_rest :: js_string where
  \<comment> \<open>part_001 line 122, 86 code units: second operand: BMI does not tell muscle from fat; use girths, photos, body-fat percentage\<close>
  "note_fit_rest =
   [1087, 1086, 32, 1048, 1052, 1058, 32, 1085, 1077, 32, 1086, 1090, 1083, 1080, 1095,
    1072, 1077, 1090, 32, 1084, 1099, 1096, 1094, 1099, 32, 1086, 1090, 32, 1078, 1080,
    1088, 1072, 58, 32, 1076, 1083, 1103, 32, 1090, 1086, 1095, 1085, 1086, 1089, 1090,
    1080, 32, 1080, 1089, 1087, 1086, 1083, 1100, 1079, 1091, 1081, 1090, 1077, 32, 1086,
    1073, 1093, 1074, 1072, 1090, 1099, 47, 1092, 1086, 1090, 1086, 47, 1087, 1088, 1086,
    1094, 1077, 1085, 1090, 1099, 32, 1078, 1080, 1088, 1072, 46]"

text \<open>
  \<^verbatim>\<open>buildWorkoutPlan\<close> takes its four parameters in one object and unpacks it at once. The
  local constants keep the names of the source, which are also the names of the fields
  of the result. The three \<^verbatim>\<open>if\<close> statements that push the notes run one after the other.
  Of the numeric literals only 0.35 is not a double; it denotes the double nearest to it.
\<close>

definition buildWorkoutPlan ::
  "number \<Rightarrow> number \<Rightarrow> number \<Rightarrow> Goal \<Rightarrow> WorkoutPlan" where
  "buildWorkoutPlan = (\<lambda>weightKg heightCm bmi goal.
     let targetBmi =
           (if goal = Lose then Finite 24.0 else if goal = Gain then Finite 20.0
            else Finite 22.0);
         targetWeightKg = round1 (weightForBmi heightCm targetBmi);
         deltaKg = round1 (js_sub targetWeightKg weightKg);
         lossRate = (if js_ge bmi 30 then Finite 0.75 else Finite 0.5);
         gainRate = fl 0.35;
         estimatedWeeks =
           (if goal = Lose then
              (let needLose = Math_max (Finite 0) (js_sub weightKg targetWeightKg) in
               if js_gt needLose 0 then Math_ceil (js_div needLose lossRate) else Finite 0)
            else if goal = Gain then
              (let needGain = Math_max (Finite 0) (js_sub targetWeightKg weightKg) in
               if js_gt needGain 0 then Math_ceil (js_div needGain gainRate) else Finite 0)
            else
              clamp (Math_round
                       (js_add (Finite 8)
                          (js_mul (Math_abs (js_sub (Finite 22) bmi)) (Finite 2))))
                (Finite 8) (Finite 12));
         gymPlan =
           (if goal = Lose then
              \<lparr>strengthSessionsPerWeek = Finite 3, strengthMinutesPerSession = Finite 45,
               cardioSessionsPerWeek = Finite 3, cardioMinutesPerSession = Finite 35,
               stepsPerDay = Finite 8000\<rparr>
            else if goal = Gain then
              \<lparr>strengthSessionsPerWeek = Finite 4, strengthMinutesPerSession = Finite 55,
               cardioSessionsPerWeek = Finite 2, cardioMinutesPerSession = Finite 20,
               stepsPerDay = Finite 6000\<rparr>
            else
              \<lparr>strengthSessionsPerWeek = Finite 3, strengthMinutesPerSession = Finite 50,
               cardioSessionsPerWeek = Finite 2, cardioMinutesPerSession = Finite 25,
               stepsPerDay = Finite 7000\<rparr>);
         summary =
           (if goal = Lose then
              [Text summary_lose_head, Value targetWeightKg, Text summary_kg_bmi,
               Value targetBmi, Text summary_close]
            else if goal = Gain then
              [Text summary_gain_head, Value targetWeightKg, Text summary_kg_bmi,
               Value targetBmi, Text summary_close]
            else [Text summary_fit_head, Value targetBmi, Text summary_fit_tail]);
         notes0 = [];
         notes1 = (if goal = Lose
                   then notes0 @ [note_lose_regularity] @ [note_lose_contraindications]
                   else notes0);
         notes2 = (if goal = Gain
                   then notes1 @ [note_gain_progression] @ [note_gain_cardio]
                   else notes1);
         notes = (if goal = Fit then notes2 @ [note_fit_prefix @ note_fit_rest] else notes2)
     in \<lparr>goal = goal, targetBmi = targetBmi, currentWeightKg = round1 weightKg,
         targetWeightKg = targetWeightKg, deltaKg = round1 deltaKg,
         estimatedWeeks = estimatedWeeks, summary = summary, gymPlan = gymPlan,
         notes = notes\<rparr>)"

section \<open>The goal chosen by the screen\<close>

text \<open>
  The statistics screen keeps the current measurement, or nothing when there is neither
  a result nor a history entry. From it the screen suggests a goal, lets the suggestion
  replace a selected \<^verbatim>\<open>fit\<close>, and builds the plan for the effective goal.
\<close>

record Stats =
  bmi :: number
  weightKg :: number
  heightCm :: number
  category :: js_string

definition suggestedGoal :: "Stats option \<Rightarrow> Goal" where
  "suggestedGoal statsCurrent =
     (case statsCurrent of
        None \<Rightarrow> Fit
      | Some s \<Rightarrow> if js_ge (bmi s) 25 then Lose else if js_lt (bmi s) 18.5 then Gain else Fit)"

definition effectiveGoal :: "Goal \<Rightarrow> Goal \<Rightarrow> Goal" where
  "effectiveGoal = (\<lambda>goal suggestedGoal.
     if goal = Fit \<and> suggestedGoal \<noteq> Fit then suggestedGoal else goal)"

text \<open>
  \<^verbatim>\<open>statsPlan\<close> reads the memoised \<^verbatim>\<open>statsCurrent\<close> and \<^verbatim>\<open>effectiveGoal\<close>; here it takes the
  measurement and the selected goal and computes the effective goal from them.
\<close>

definition statsPlan :: "Stats option \<Rightarrow> Goal \<Rightarrow> WorkoutPlan option" where
  "statsPlan statsCurrent selected =
     (case statsCurrent of
        None \<Rightarrow> None
      | Some s \<Rightarrow>
          Some (buildWorkoutPlan (weightKg s) (heightCm s) (bmi s)
                  (effectiveGoal selected (suggestedGoal statsCurrent))))"

section \<open>Facts about rounding\<close>

subsection \<open>Rounding to an integer, ties to even\<close>

lemma round_even_of_int [simp]: "round_even (of_int k) = k"
  by (simp add: round_even_def)

lemma round_even_error: "\<bar>of_int (round_even y) - y\<bar> \<le> 1 / 2"
  unfolding round_even_def Let_def by (auto; linarith)

lemma round_even_range: "\<lfloor>y\<rfloor> \<le> round_even y \<and> round_even y \<le> \<lfloor>y\<rfloor> + 1"
  unfolding round_even_def Let_def by auto

lemma round_even_mono:
  assumes "y \<le> z"
  shows "round_even y \<le> round_even z"
proof (cases "\<lfloor>y\<rfloor> = \<lfloor>z\<rfloor>")
  case True
  then show ?thesis using assms unfolding round_even_def Let_def by auto
next
  case False
  then have "\<lfloor>y\<rfloor> < \<lfloor>z\<rfloor>" using assms floor_mono [of y z] by linarith
  then show ?thesis using round_even_range [of y] round_even_range [of z] by linarith
qed

lemma round_even_minus: "round_even (- y) = - round_even y"
proof (cases "y \<in> \<int>")
  case True
  then obtain k where "y = of_int k" by (auto elim: Ints_cases)
  then have "- y = of_int (- k)" by simp
  then show ?thesis using \<open>y = of_int k\<close> by (simp only: round_even_of_int)
next
  case False
  then have fl: "\<lfloor>- y\<rfloor> = - \<lfloor>y\<rfloor> - 1"
    by (simp add: floor_minus ceiling_altdef) (metis Ints_of_int)
  show ?thesis
    unfolding round_even_def Let_def fl by auto
qed

subsection \<open>The exponent of a binade\<close>

lemma ilog2_bounds:
  assumes "0 < x"
  shows "2 powi (ilog2 x) \<le> x" and "x < 2 powi (ilog2 x + 1)"
proof -
  have "2 powi (ilog2 x) \<le> x \<and> x < 2 powi (ilog2 x + 1)"
  proof (cases "1 \<le> x")
    case True
    define n where "n = \<lfloor>x\<rfloor>"
    have n: "0 < n" using True by (simp add: n_def)
    have "bitlen n \<noteq> 0" using n by (simp only: bitlen_eq_zero_iff)
    then have "0 \<le> bitlen n - 1" using bitlen_nonneg [of n] by linarith
    then obtain k where k: "bitlen n - 1 = int k" using zero_le_imp_eq_int by blast
    then have bl: "bitlen n = int k + 1" by linarith
    have "nat (bitlen n - 1) = k" and "nat (bitlen n) = k + 1" using k bl by simp_all
    then have b1: "2 ^ k \<le> n" and b2: "n < 2 ^ (k + 1)"
      using bitlen_bounds [OF n] by simp_all
    have il: "ilog2 x = int k" using True by (simp add: ilog2_def n_def [symmetric] bl)
    have "(2::real) ^ k \<le> of_int n" using b1 by (metis of_int_le_iff of_int_numeral of_int_power)
    also have "\<dots> \<le> x" by (simp add: n_def)
    finally have l: "(2::real) ^ k \<le> x" .
    have "n + 1 \<le> 2 ^ (k + 1)" using b2 by simp
    then have "of_int (n + 1) \<le> (2::real) ^ (k + 1)"
      by (metis of_int_le_iff of_int_numeral of_int_power)
    moreover have "x < of_int (n + 1)" unfolding n_def by linarith
    ultimately have u: "x < (2::real) ^ (k + 1)" by linarith
    show ?thesis using l u by (simp add: il power_int_add)
  next
    case False
    define y where "y = 1 / x"
    have y1: "1 < y" using False assms by (simp add: y_def)
    define n where "n = \<lceil>y\<rceil> - 1"
    have n: "0 < n" using y1 unfolding n_def by linarith
    have "bitlen n \<noteq> 0" using n by (simp only: bitlen_eq_zero_iff)
    then have "0 \<le> bitlen n - 1" using bitlen_nonneg [of n] by linarith
    then obtain k where k: "bitlen n - 1 = int k" using zero_le_imp_eq_int by blast
    then have bl: "bitlen n = int k + 1" by linarith
    have "nat (bitlen n - 1) = k" and "nat (bitlen n) = k + 1" using k bl by simp_all
    then have b1: "2 ^ k \<le> n" and b2: "n < 2 ^ (k + 1)"
      using bitlen_bounds [OF n] by simp_all
    have il: "ilog2 x = - (int k + 1)"
      using False by (simp add: ilog2_def y_def [symmetric] n_def [symmetric] bl)
    have "(2::real) ^ k \<le> of_int n" using b1 by (metis of_int_le_iff of_int_numeral of_int_power)
    also have "\<dots> < y" unfolding n_def by linarith
    finally have l: "(2::real) ^ k < y" .
    have "n + 1 \<le> 2 ^ (k + 1)" using b2 by simp
    then have "of_int (n + 1) \<le> (2::real) ^ (k + 1)"
      by (metis of_int_le_iff of_int_numeral of_int_power)
    moreover have "y \<le> of_int (n + 1)" unfolding n_def by linarith
    ultimately have u: "y \<le> (2::real) ^ (k + 1)" by linarith
    have xy: "x = 1 / y" using assms by (simp add: y_def)
    have "1 / (2::real) ^ (k + 1) \<le> x"
      unfolding xy using u y1 by (intro divide_left_mono) simp_all
    moreover have "x < 1 / (2::real) ^ k"
      unfolding xy using l y1 by (intro divide_strict_left_mono) simp_all
    moreover have "2 powi (- (int k + 1)) = 1 / (2::real) ^ (k + 1)"
    proof -
      have "- (int k + 1) = - int (k + 1)" by simp
      then show ?thesis by (simp only: power_int_minus_divide power_int_of_nat)
    qed
    moreover have "2 powi (- (int k + 1) + 1) = 1 / (2::real) ^ k"
    proof -
      have "- (int k + 1) + 1 = - int k" by simp
      then show ?thesis by (simp only: power_int_minus_divide power_int_of_nat)
    qed
    ultimately show ?thesis by (simp only: il)
  qed
  then show "2 powi (ilog2 x) \<le> x" and "x < 2 powi (ilog2 x + 1)" by simp_all
qed

lemma powi_two_less_imp:
  assumes "(2::real) powi a < 2 powi b"
  shows "a < b"
proof (rule ccontr)
  assume "\<not> a < b"
  then have "b \<le> a" by simp
  then have "(2::real) powi b \<le> 2 powi a" by (intro power_int_increasing) simp_all
  then show False using assms by simp
qed

lemma ilog2_eq:
  assumes "2 powi k \<le> x" and "x < 2 powi (k + 1)"
  shows "ilog2 x = k"
proof -
  have pos: "0 < x" using assms(1) zero_less_power_int [of "2::real" k] by linarith
  have "2 powi (ilog2 x) < (2::real) powi (k + 1)"
    using ilog2_bounds(1) [OF pos] assms(2) by linarith
  then have "ilog2 x < k + 1" by (rule powi_two_less_imp)
  moreover have "2 powi k < (2::real) powi (ilog2 x + 1)"
    using ilog2_bounds(2) [OF pos] assms(1) by linarith
  then have "k < ilog2 x + 1" by (rule powi_two_less_imp)
  ultimately show ?thesis by simp
qed

subsection \<open>Rounding to a double\<close>

lemma ulp_pos [simp]: "0 < ulp x"
  by (simp add: ulp_def)

lemma ulp_nonneg [simp]: "0 \<le> ulp x"
  using ulp_pos [of x] by linarith

lemma ulp_neq0 [simp]: "ulp x \<noteq> 0"
  using ulp_pos [of x] by linarith

lemma ulp_minus [simp]: "ulp (- x) = ulp x"
  by (simp add: ulp_def)

lemma round_even_zero [simp]: "round_even 0 = 0"
  using round_even_of_int [of 0] by simp

lemma rnd_zero [simp]: "rnd 0 = 0"
  by (simp add: rnd_def)

lemma rnd_minus: "rnd (- x) = - rnd x"
  by (simp add: rnd_def round_even_minus)

lemma rnd_nonneg: "0 \<le> x \<Longrightarrow> 0 \<le> rnd x"
proof -
  assume "0 \<le> x"
  then have "0 \<le> x / ulp x" by simp
  then have "round_even 0 \<le> round_even (x / ulp x)" by (rule round_even_mono)
  then have "0 \<le> round_even (x / ulp x)" using round_even_of_int [of 0] by simp
  then show ?thesis by (simp add: rnd_def)
qed

lemma rnd_nonpos: "x \<le> 0 \<Longrightarrow> rnd x \<le> 0"
  using rnd_nonneg [of "- x"] by (simp add: rnd_minus)

lemma rnd_abs_error: "\<bar>rnd x - x\<bar> \<le> ulp x / 2"
proof -
  have "rnd x - x = (of_int (round_even (x / ulp x)) - x / ulp x) * ulp x"
    by (simp add: rnd_def left_diff_distrib)
  then have "\<bar>rnd x - x\<bar> = \<bar>of_int (round_even (x / ulp x)) - x / ulp x\<bar> * ulp x"
    by (simp add: abs_mult)
  also have "\<dots> \<le> 1 / 2 * ulp x"
    by (intro mult_right_mono round_even_error) simp
  finally show ?thesis by simp
qed

lemma ilog2_mono:
  assumes "0 < x" and "x \<le> y"
  shows "ilog2 x \<le> ilog2 y"
proof -
  have "2 powi (ilog2 x) \<le> x" using assms(1) by (rule ilog2_bounds)
  also have "x \<le> y" by fact
  also have "y < 2 powi (ilog2 y + 1)" using assms by (intro ilog2_bounds) simp
  finally have "ilog2 x < ilog2 y + 1" by (rule powi_two_less_imp)
  then show ?thesis by simp
qed

lemma ulp_eq: "ulp x = 2 powi (max (ilog2 \<bar>x\<bar>) (- 1022)) / 2 ^ 52"
proof -
  have "ulp x = 2 powi (max (ilog2 \<bar>x\<bar>) (- 1022) + (- 52))" by (simp add: ulp_def)
  also have "\<dots> = 2 powi (max (ilog2 \<bar>x\<bar>) (- 1022)) * 2 powi (- 52)"
    by (rule power_int_add) simp
  finally show ?thesis by (simp add: power_int_minus_divide)
qed

lemma rnd_mono_pos:
  assumes "0 < x" and "x \<le> y"
  shows "rnd x \<le> rnd y"
proof -
  define ex where "ex = max (ilog2 \<bar>x\<bar>) (- 1022)"
  define ey where "ey = max (ilog2 \<bar>y\<bar>) (- 1022)"
  have y: "0 < y" using assms by simp
  have il: "ilog2 \<bar>x\<bar> \<le> ilog2 \<bar>y\<bar>" using assms by (simp add: ilog2_mono)
  then have le: "ex \<le> ey" by (simp add: ex_def ey_def)
  have ux: "ulp x = 2 powi ex / 2 ^ 52" by (simp add: ulp_eq ex_def)
  have uy: "ulp y = 2 powi ey / 2 ^ 52" by (simp add: ulp_eq ey_def)
  show ?thesis
  proof (cases "ex = ey")
    case True
    then have "ulp x = ulp y" by (simp add: ux uy)
    moreover have "round_even (x / ulp y) \<le> round_even (y / ulp y)"
      using assms by (intro round_even_mono divide_right_mono) simp_all
    ultimately show ?thesis by (simp add: rnd_def)
  next
    case False
    then have lt: "ex + 1 \<le> ey" using le by simp
    then have eyl: "ey = ilog2 \<bar>y\<bar>" using il by (simp add: ex_def ey_def)
    have "x < 2 powi (ilog2 x + 1)" using assms(1) by (rule ilog2_bounds)
    also have "\<dots> \<le> 2 powi (ex + 1)"
      using assms(1) by (intro power_int_increasing) (simp_all add: ex_def)
    finally have xu: "x < 2 powi (ex + 1)" .
    have "2 powi (ex + 1) = (2::real) powi ex * 2" by (simp add: power_int_add)
    then have "x / ulp x \<le> 2 ^ 53" using xu by (simp add: ux field_simps)
    then have "round_even (x / ulp x) \<le> round_even (of_int (2 ^ 53))"
      by (intro round_even_mono) simp
    then have "round_even (x / ulp x) \<le> 2 ^ 53" by (simp only: round_even_of_int)
    then have "of_int (round_even (x / ulp x)) \<le> (2::real) ^ 53"
      by (metis of_int_le_iff of_int_numeral of_int_power)
    then have "rnd x \<le> 2 ^ 53 * ulp x"
      unfolding rnd_def by (intro mult_right_mono) simp_all
    also have "\<dots> = 2 powi (ex + 1)" by (simp add: ux power_int_add)
    also have "\<dots> \<le> 2 powi ey" using lt by (intro power_int_increasing) simp_all
    finally have a: "rnd x \<le> 2 powi ey" .
    have "2 powi ey \<le> y" using ilog2_bounds(1) [OF y] y by (simp add: eyl)
    then have "2 ^ 52 \<le> y / ulp y" by (simp add: uy field_simps)
    then have "round_even (of_int (2 ^ 52)) \<le> round_even (y / ulp y)"
      by (intro round_even_mono) simp
    then have "2 ^ 52 \<le> round_even (y / ulp y)" by (simp only: round_even_of_int)
    then have "(2::real) ^ 52 \<le> of_int (round_even (y / ulp y))"
      by (metis of_int_le_iff of_int_numeral of_int_power)
    then have "2 ^ 52 * ulp y \<le> rnd y"
      unfolding rnd_def by (intro mult_right_mono) simp_all
    moreover have "2 ^ 52 * ulp y = 2 powi ey" by (simp add: uy)
    ultimately show ?thesis using a by linarith
  qed
qed

lemma rnd_mono:
  assumes "x \<le> y"
  shows "rnd x \<le> rnd y"
proof -
  consider "0 < x" | "x \<le> 0" "0 \<le> y" | "y < 0" by linarith
  then show ?thesis
  proof cases
    case 1
    then show ?thesis using assms by (rule rnd_mono_pos)
  next
    case 2
    then show ?thesis using rnd_nonpos [of x] rnd_nonneg [of y] by linarith
  next
    case 3
    then have "rnd (- y) \<le> rnd (- x)" using assms by (intro rnd_mono_pos) simp_all
    then show ?thesis by (simp add: rnd_minus)
  qed
qed

lemma rnd_rel_error:
  assumes "2 powi (- 1022) \<le> \<bar>x\<bar>"
  shows "\<bar>rnd x - x\<bar> \<le> \<bar>x\<bar> / 2 ^ 53"
proof -
  have pos: "0 < \<bar>x\<bar>" using assms zero_less_power_int [of "2::real" "- 1022"] by linarith
  have "2 powi (- 1022) < (2::real) powi (ilog2 \<bar>x\<bar> + 1)"
    using assms ilog2_bounds(2) [OF pos] by linarith
  then have "- 1022 < ilog2 \<bar>x\<bar> + 1" by (rule powi_two_less_imp)
  then have "max (ilog2 \<bar>x\<bar>) (- 1022) = ilog2 \<bar>x\<bar>" by simp
  then have "ulp x = 2 powi (ilog2 \<bar>x\<bar>) / 2 ^ 52" by (simp add: ulp_eq)
  also have "\<dots> \<le> \<bar>x\<bar> / 2 ^ 52"
    using ilog2_bounds(1) [OF pos] by (intro divide_right_mono) simp_all
  finally have "ulp x / 2 \<le> \<bar>x\<bar> / 2 ^ 53" by simp
  then show ?thesis using rnd_abs_error [of x] by linarith
qed

lemma rnd_exact:
  assumes x: "x = of_int j * 2 powi e" and j: "\<bar>j\<bar> < 2 ^ 53" and e: "- 1074 \<le> e"
  shows "rnd x = x"
proof (cases "x = 0")
  case True
  then show ?thesis by simp
next
  case False
  define E where "E = max (ilog2 \<bar>x\<bar>) (- 1022)"
  have pos: "0 < \<bar>x\<bar>" using False by simp
  have "E - 52 \<le> e"
  proof (cases "ilog2 \<bar>x\<bar> \<le> - 1022")
    case True
    then show ?thesis using e by (simp add: E_def)
  next
    case False
    have "2 powi (ilog2 \<bar>x\<bar>) \<le> \<bar>x\<bar>" using pos by (rule ilog2_bounds)
    also have "\<bar>x\<bar> = \<bar>of_int j\<bar> * 2 powi e" by (simp add: x abs_mult)
    also have "\<dots> < 2 ^ 53 * 2 powi e"
    proof -
      have "\<bar>real_of_int j\<bar> < 2 ^ 53"
        using j by (metis of_int_abs of_int_less_iff of_int_numeral of_int_power)
      then show ?thesis by (intro mult_strict_right_mono) simp_all
    qed
    also have "\<dots> = 2 powi (53 + e)" by (simp add: power_int_add)
    finally have "ilog2 \<bar>x\<bar> < 53 + e" by (rule powi_two_less_imp)
    then show ?thesis using False by (simp add: E_def)
  qed
  then obtain n where n: "e - (E - 52) = int n" using zero_le_imp_eq_int [of "e - (E - 52)"] by auto
  have u: "ulp x = 2 powi (E - 52)" by (simp add: ulp_def E_def)
  have "e = (E - 52) + int n" using n by linarith
  then have "2 powi e = (2::real) powi ((E - 52) + int n)" by (rule arg_cong)
  also have "\<dots> = 2 powi (E - 52) * 2 ^ n" by (simp add: power_int_add)
  finally have pe: "2 powi e = ulp x * 2 ^ n" by (simp only: u)
  have "x = of_int j * (ulp x * 2 ^ n)" using x pe by metis
  then have xu: "x / ulp x = of_int (j * 2 ^ n)"
    by (simp add: nonzero_divide_eq_eq mult_ac)
  then have "round_even (x / ulp x) = j * 2 ^ n" by (simp only: round_even_of_int)
  then have "rnd x = of_int (j * 2 ^ n) * ulp x" by (simp add: rnd_def)
  also have "\<dots> = x / ulp x * ulp x" by (simp only: xu)
  finally show ?thesis by simp
qed

lemma rnd_one: "rnd 1 = 1"
  using rnd_exact [of 1 1 0] by simp

lemma rnd_of_int: "\<bar>k\<bar> < 2 ^ 53 \<Longrightarrow> rnd (of_int k) = of_int k"
  using rnd_exact [of "of_int k" k 0] by simp

lemma fl_not_NaN [simp]: "fl x \<noteq> NaN"
  by (simp add: fl_def Let_def)

lemma fl_zero [simp]: "fl 0 = Finite 0"
  by (simp add: fl_def)

lemma fl_mono: "x \<le> y \<Longrightarrow> js_le (fl x) (fl y)"
  using rnd_mono [of x y] by (simp add: fl_def Let_def)

lemma rnd_pow2: "rnd (2 ^ 1023) = 2 ^ 1023"
  using rnd_exact [of "2 ^ 1023" 1 1023] by simp

lemma fl_finite:
  assumes "\<bar>x\<bar> \<le> 2 ^ 1023"
  shows "fl x = Finite (rnd x)"
proof -
  have "rnd x \<le> rnd (2 ^ 1023)" using assms by (intro rnd_mono) simp
  moreover have "rnd (- (2 ^ 1023)) \<le> rnd x" using assms by (intro rnd_mono) simp
  moreover have "rnd (- (2 ^ 1023)) = - (2 ^ 1023)" by (simp only: rnd_minus rnd_pow2)
  ultimately have "rnd x \<le> 2 ^ 1023" and "- (2 ^ 1023) \<le> rnd x"
    by (simp_all only: rnd_pow2)
  then show ?thesis by (simp add: fl_def Let_def)
qed

lemma fl_exact:
  assumes "x = of_int j * 2 powi e" and "\<bar>j\<bar> < 2 ^ 53" and "- 1074 \<le> e" and "\<bar>x\<bar> \<le> 2 ^ 1023"
  shows "fl x = Finite x"
  using fl_finite [OF assms(4)] rnd_exact [OF assms(1-3)] by simp

lemma fl_of_int:
  assumes "\<bar>k\<bar> < 2 ^ 53"
  shows "fl (of_int k) = Finite (of_int k)"
proof (rule fl_exact [where j = k and e = 0])
  show "real_of_int k = of_int k * 2 powi 0" by simp
  show "\<bar>k\<bar> < 2 ^ 53" by fact
  show "- 1074 \<le> (0::int)" by simp
  have "\<bar>real_of_int k\<bar> < 2 ^ 53"
    using assms by (metis of_int_abs of_int_less_iff of_int_numeral of_int_power)
  then show "\<bar>real_of_int k\<bar> \<le> 2 ^ 1023" by simp
qed

lemma fl_rel_error:
  assumes "2 powi (- 1022) \<le> \<bar>x\<bar>" and "\<bar>x\<bar> \<le> 2 ^ 1023"
  shows "\<exists>r. fl x = Finite r \<and> \<bar>r - x\<bar> \<le> \<bar>x\<bar> / 2 ^ 53"
  using fl_finite [OF assms(2)] rnd_rel_error [OF assms(1)] by simp

lemma fl_pos_bounds:
  assumes "1 \<le> x" and "x \<le> 10 ^ 301"
  shows "fl x = Finite (rnd x)"
    and "x * (1 - 1 / 10 ^ 15) \<le> rnd x"
    and "rnd x \<le> x * (1 + 1 / 10 ^ 15)"
    and "1 \<le> rnd x"
    and "rnd x \<le> 2 * x"
proof -
  have big: "(10::real) ^ 301 \<le> 2 ^ 1023" by simp
  have ax: "\<bar>x\<bar> = x" using assms(1) by simp
  have "\<bar>x\<bar> \<le> 2 ^ 1023" unfolding ax using assms(2) big by (rule order_trans)
  then show "fl x = Finite (rnd x)" by (rule fl_finite)
  have "(2::real) powi (- 1022) \<le> 1" by (simp add: power_int_minus_divide)
  then have "2 powi (- 1022) \<le> \<bar>x\<bar>" using assms(1) by linarith
  then have "\<bar>rnd x - x\<bar> \<le> \<bar>x\<bar> / 2 ^ 53" by (rule rnd_rel_error)
  then have "\<bar>rnd x - x\<bar> \<le> x / 2 ^ 53" by (simp only: ax)
  moreover have "x / 2 ^ 53 \<le> x / 10 ^ 15"
    using assms(1) by (intro divide_left_mono) simp_all
  ultimately have e: "\<bar>rnd x - x\<bar> \<le> x / 10 ^ 15" by linarith
  then have e1: "rnd x - x \<le> x / 10 ^ 15" and e2: "- (x / 10 ^ 15) \<le> rnd x - x"
    by (simp_all only: abs_le_iff) linarith+
  have "x * (1 - 1 / 10 ^ 15) = x - x / 10 ^ 15" by (simp add: algebra_simps)
  then show "x * (1 - 1 / 10 ^ 15) \<le> rnd x" using e2 by linarith
  have "x * (1 + 1 / 10 ^ 15) = x + x / 10 ^ 15" by (simp add: algebra_simps)
  then show u: "rnd x \<le> x * (1 + 1 / 10 ^ 15)" using e1 by linarith
  show "1 \<le> rnd x" using rnd_mono [OF assms(1)] by (simp add: rnd_one)
  have "x * (1 + 1 / 10 ^ 15) \<le> x * 2" using assms(1) by (intro mult_left_mono) simp_all
  then show "rnd x \<le> 2 * x" using u by linarith
qed

lemma is_double_rnd: "is_double x \<Longrightarrow> rnd x = x"
  by (simp add: is_double_def fl_def Let_def split: if_splits)

lemma double_grid:
  assumes "is_double x" and "2 powi k \<le> \<bar>x\<bar>" and "\<bar>x\<bar> < 2 powi (k + 1)" and "- 1022 \<le> k"
  shows "\<exists>j. x = of_int j * 2 powi (k - 52)"
proof -
  have "ilog2 \<bar>x\<bar> = k" using assms(2,3) by (rule ilog2_eq)
  then have "ulp x = 2 powi (k - 52)" using assms(4) by (simp add: ulp_def)
  then have "rnd x = of_int (round_even (x / ulp x)) * 2 powi (k - 52)" by (simp add: rnd_def)
  then show ?thesis using is_double_rnd [OF assms(1)] by metis
qed

text \<open>
  The numeric literals of the program, 0.35 apart, are doubles; 0.35 denotes the double
  \<open>3152519739159347 / 2\<^sup>5\<^sup>3\<close>. The facts \<open>fl_eval\<close> evaluate a rounding at a given number.
\<close>

lemmas fl_eval = fl_def rnd_def ulp_def ilog2_def round_even_def Let_def compute_bitlen

lemma literals_are_doubles:
  "is_double 0" "is_double 2" "is_double 8" "is_double 10" "is_double 12" "is_double 20"
  "is_double 22" "is_double 24" "is_double 100" "is_double 0.5" "is_double 0.75"
  "fl 0.35 = Finite (3152519739159347 / 2 ^ 53)"
  by (simp_all add: is_double_def fl_eval)

subsection \<open>The order of numbers and the operators\<close>

lemma js_le_PosInfinity [simp]: "a \<noteq> NaN \<Longrightarrow> js_le a PosInfinity"
  by (cases a) simp_all

lemma js_le_NegInfinity [simp]: "b \<noteq> NaN \<Longrightarrow> js_le NegInfinity b"
  by (cases b) simp_all

lemma js_le_refl: "a \<noteq> NaN \<Longrightarrow> js_le a a"
  by (cases a) simp_all

lemma js_le_trans: "js_le a b \<Longrightarrow> js_le b c \<Longrightarrow> js_le a c"
  by (cases a; cases b; cases c) simp_all

lemma Math_ceil_mono: "js_le a b \<Longrightarrow> js_le (Math_ceil a) (Math_ceil b)"
  by (cases a; cases b) (simp_all add: ceiling_mono)

lemma Math_round_mono: "js_le a b \<Longrightarrow> js_le (Math_round a) (Math_round b)"
  by (cases a; cases b) (simp_all add: floor_mono)

lemma js_sub_mono_left:
  "x \<le> y \<Longrightarrow> T \<noteq> NaN \<Longrightarrow> js_le (js_sub (Finite x) T) (js_sub (Finite y) T)"
  by (cases T) (simp_all add: fl_mono)

lemma js_div_mono_left:
  "js_le a b \<Longrightarrow> 0 < r \<Longrightarrow> js_le (js_div a (Finite r)) (js_div b (Finite r))"
  by (cases a; cases b) (simp_all add: fl_mono divide_right_mono)

lemma Math_max_mono:
  "js_le a b \<Longrightarrow> js_le (Math_max (Finite 0) a) (Math_max (Finite 0) b)"
  by (cases a; cases b) simp_all

lemma Math_max_zero_cases:
  "a \<noteq> NaN \<Longrightarrow> Math_max (Finite 0) a = PosInfinity
     \<or> (\<exists>x. Math_max (Finite 0) a = Finite x \<and> 0 \<le> x)"
  by (cases a) simp_all

lemma js_mul_two_mono: "js_le a b \<Longrightarrow> js_le (js_mul a (Finite 2)) (js_mul b (Finite 2))"
  by (cases a; cases b) (simp_all add: fl_mono)

lemma js_add_eight_mono: "js_le a b \<Longrightarrow> js_le (js_add (Finite 8) a) (js_add (Finite 8) b)"
  by (cases a; cases b) (simp_all add: fl_mono)

lemma js_mul_const_not_NaN: "a \<noteq> NaN \<Longrightarrow> c \<noteq> 0 \<Longrightarrow> js_mul a (Finite c) \<noteq> NaN"
  by (cases a) simp_all

lemma js_div_const_not_NaN: "a \<noteq> NaN \<Longrightarrow> c \<noteq> 0 \<Longrightarrow> js_div a (Finite c) \<noteq> NaN"
  by (cases a) simp_all

lemma Math_round_not_NaN: "a \<noteq> NaN \<Longrightarrow> Math_round a \<noteq> NaN"
  by (cases a) simp_all

lemma js_sub_left_not_NaN: "T \<noteq> NaN \<Longrightarrow> js_sub (Finite w) T \<noteq> NaN"
  by (cases T) simp_all

lemma js_sub_right_not_NaN: "T \<noteq> NaN \<Longrightarrow> js_sub T (Finite w) \<noteq> NaN"
  by (cases T) simp_all

section \<open>The fields of the plan\<close>

lemma bwp_goal: "goal (buildWorkoutPlan w h b g) = g"
  by (simp add: buildWorkoutPlan_def Let_def)

lemma bwp_targetBmi:
  "targetBmi (buildWorkoutPlan w h b g) =
     (case g of Lose \<Rightarrow> Finite 24 | Gain \<Rightarrow> Finite 20 | Fit \<Rightarrow> Finite 22)"
  by (cases g) (simp_all add: buildWorkoutPlan_def Let_def)

lemma bwp_targetWeightKg:
  "targetWeightKg (buildWorkoutPlan w h b g) =
     round1 (weightForBmi h (targetBmi (buildWorkoutPlan w h b g)))"
  by (cases g) (simp_all add: buildWorkoutPlan_def Let_def)

lemma bwp_currentWeightKg: "currentWeightKg (buildWorkoutPlan w h b g) = round1 w"
  by (simp add: buildWorkoutPlan_def Let_def)

lemma bwp_deltaKg:
  "deltaKg (buildWorkoutPlan w h b g) =
     round1 (round1 (js_sub (targetWeightKg (buildWorkoutPlan w h b g)) w))"
  by (cases g) (simp_all add: buildWorkoutPlan_def Let_def)

lemma bwp_weeks_Lose:
  "estimatedWeeks (buildWorkoutPlan w h b Lose) =
     (if js_gt (Math_max (Finite 0) (js_sub w (targetWeightKg (buildWorkoutPlan w h b Lose)))) 0
      then Math_ceil
             (js_div (Math_max (Finite 0) (js_sub w (targetWeightKg (buildWorkoutPlan w h b Lose))))
                (Finite (if js_ge b 30 then 0.75 else 0.5)))
      else Finite 0)"
  by (simp add: buildWorkoutPlan_def Let_def)

lemma bwp_weeks_Gain:
  "estimatedWeeks (buildWorkoutPlan w h b Gain) =
     (if js_gt (Math_max (Finite 0) (js_sub (targetWeightKg (buildWorkoutPlan w h b Gain)) w)) 0
      then Math_ceil
             (js_div (Math_max (Finite 0) (js_sub (targetWeightKg (buildWorkoutPlan w h b Gain)) w))
                (fl 0.35))
      else Finite 0)"
  by (simp add: buildWorkoutPlan_def Let_def)

lemma bwp_weeks_Fit:
  "estimatedWeeks (buildWorkoutPlan w h b Fit) =
     clamp (Math_round (js_add (Finite 8) (js_mul (Math_abs (js_sub (Finite 22) b)) (Finite 2))))
       (Finite 8) (Finite 12)"
  by (simp add: buildWorkoutPlan_def Let_def)

lemma bwp_summary:
  "summary (buildWorkoutPlan w h b g) =
     (case g of
        Lose \<Rightarrow> [Text summary_lose_head, Value (targetWeightKg (buildWorkoutPlan w h b g)),
                 Text summary_kg_bmi, Value (Finite 24), Text summary_close]
      | Gain \<Rightarrow> [Text summary_gain_head, Value (targetWeightKg (buildWorkoutPlan w h b g)),
                 Text summary_kg_bmi, Value (Finite 20), Text summary_close]
      | Fit \<Rightarrow> [Text summary_fit_head, Value (Finite 22), Text summary_fit_tail])"
  by (cases g) (simp_all add: buildWorkoutPlan_def Let_def)

lemma targetWeightKg_indep:
  "targetWeightKg (buildWorkoutPlan w h b g) = targetWeightKg (buildWorkoutPlan w' h b' g)"
  by (simp add: bwp_targetWeightKg bwp_targetBmi)

lemmas plan_eval = bwp_weeks_Lose bwp_weeks_Gain bwp_deltaKg bwp_currentWeightKg
  bwp_targetWeightKg bwp_targetBmi round1_def weightForBmi_def calculateBmi_def

lemma round1_not_NaN: "a \<noteq> NaN \<Longrightarrow> round1 a \<noteq> NaN"
  unfolding round1_def
  by (intro js_div_const_not_NaN Math_round_not_NaN js_mul_const_not_NaN) simp_all

lemma weightForBmi_not_NaN:
  assumes "c \<noteq> 0"
  shows "weightForBmi (Finite h) (Finite c) \<noteq> NaN"
proof (cases "fl (h / 100)")
  case (Finite u)
  show ?thesis
  proof (cases "fl (c * u)")
    case F: (Finite a)
    then show ?thesis using Finite by (simp add: weightForBmi_def)
  next
    case PosInfinity
    have "u \<noteq> 0" using PosInfinity by (cases "u = 0") simp_all
    then show ?thesis using Finite PosInfinity by (simp add: weightForBmi_def)
  next
    case NegInfinity
    have "u \<noteq> 0" using NegInfinity by (cases "u = 0") simp_all
    then show ?thesis using Finite NegInfinity by (simp add: weightForBmi_def)
  next
    case NaN
    then show ?thesis by simp
  qed
next
  case PosInfinity
  then show ?thesis using assms by (simp add: weightForBmi_def)
next
  case NegInfinity
  then show ?thesis using assms by (simp add: weightForBmi_def)
next
  case NaN
  then show ?thesis by simp
qed

lemma target_not_NaN:
  "targetWeightKg (buildWorkoutPlan w (Finite h) b g) \<noteq> NaN"
  unfolding bwp_targetWeightKg bwp_targetBmi
  by (cases g) (simp_all add: round1_not_NaN weightForBmi_not_NaN)

lemma weeks_of_need:
  assumes "a \<noteq> NaN" and "r \<noteq> 0"
  shows "(if js_gt (Math_max (Finite 0) a) 0
          then Math_ceil (js_div (Math_max (Finite 0) a) (Finite r)) else Finite 0)
         = Math_ceil (js_div (Math_max (Finite 0) a) (Finite r))"
  using assms by (cases a) (auto simp add: max_def)

section \<open>Estimated weeks for losing and gaining\<close>

lemma js_le_zero_weeks:
  assumes "0 < r" and "0 < x"
  shows "js_le (Finite 0) (Math_ceil (js_div (Finite x) (Finite r)))"
proof -
  have "js_le (fl 0) (fl (x / r))" using assms by (intro fl_mono) simp
  then have "js_le (Math_ceil (Finite 0)) (Math_ceil (fl (x / r)))"
    by (intro Math_ceil_mono) simp
  then show ?thesis using assms by simp
qed

lemma weeks_of_need_mono:
  assumes "js_le a b" and "0 < r"
  shows "js_le
           (if js_gt (Math_max (Finite 0) a) 0
            then Math_ceil (js_div (Math_max (Finite 0) a) (Finite r)) else Finite 0)
           (if js_gt (Math_max (Finite 0) b) 0
            then Math_ceil (js_div (Math_max (Finite 0) b) (Finite r)) else Finite 0)"
proof -
  define na where "na = Math_max (Finite 0) a"
  define nb where "nb = Math_max (Finite 0) b"
  have ab: "a \<noteq> NaN" "b \<noteq> NaN" using assms(1) by (cases a; cases b; simp)+
  have le: "js_le na nb" unfolding na_def nb_def using assms(1) by (rule Math_max_mono)
  have ca: "na = PosInfinity \<or> (\<exists>x. na = Finite x \<and> 0 \<le> x)"
    unfolding na_def using ab(1) by (rule Math_max_zero_cases)
  have cb: "nb = PosInfinity \<or> (\<exists>x. nb = Finite x \<and> 0 \<le> x)"
    unfolding nb_def using ab(2) by (rule Math_max_zero_cases)
  have "js_le (if js_gt na 0 then Math_ceil (js_div na (Finite r)) else Finite 0)
              (if js_gt nb 0 then Math_ceil (js_div nb (Finite r)) else Finite 0)"
  proof (cases "js_gt na 0")
    case True
    then have "js_gt nb 0" using le by (cases na; cases nb) simp_all
    moreover have "js_le (Math_ceil (js_div na (Finite r))) (Math_ceil (js_div nb (Finite r)))"
      using le assms(2) by (intro Math_ceil_mono js_div_mono_left)
    ultimately show ?thesis using True by simp
  next
    case False
    show ?thesis
    proof (cases "js_gt nb 0")
      case True
      then have "js_le (Finite 0) (Math_ceil (js_div nb (Finite r)))"
        using cb assms(2) js_le_zero_weeks [OF assms(2)] by (cases nb) auto
      then show ?thesis using True False by simp
    next
      case F: False
      then show ?thesis using False by simp
    qed
  qed
  then show ?thesis by (simp only: na_def nb_def)
qed

text \<open>
  Claim C1 says that the weeks for Lose and Gain are computed from the difference between
  the input weight and the exact target weight \<open>targetBmi * (heightCm / 100)\<^sup>2\<close>. The
  builder subtracts the plan's \<^verbatim>\<open>targetWeightKg\<close>, which is already rounded to one decimal.
  At 180 cm the unrounded target for Lose is 77.76 kg and the rounded one 77.8 kg; the
  double nearest 77.78 kg lies between them, so the builder reports 0 weeks where the
  claim's formula gives 1, both when it is evaluated in double arithmetic and when it is
  evaluated exactly.
\<close>

theorem C1_counterexample:
  "estimatedWeeks
     (buildWorkoutPlan (fl 77.78) (Finite 180) (calculateBmi (fl 77.78) (Finite 180)) Lose)
     = Finite 0
   \<and> Math_ceil (js_div
         (Math_max (Finite 0) (js_sub (fl 77.78) (weightForBmi (Finite 180) (Finite 24))))
         (if js_ge (calculateBmi (fl 77.78) (Finite 180)) 30 then Finite 0.75 else Finite 0.5))
     = Finite 1
   \<and> estimatedWeeks
       (buildWorkoutPlan (fl 77.78) (Finite 180) (calculateBmi (fl 77.78) (Finite 180)) Lose)
     \<noteq> Math_ceil (js_div
         (Math_max (Finite 0) (js_sub (fl 77.78) (weightForBmi (Finite 180) (Finite 24))))
         (if js_ge (calculateBmi (fl 77.78) (Finite 180)) 30 then Finite 0.75 else Finite 0.5))
   \<and> fl 77.78 = Finite (2736640461069353 / 2 ^ 45)
   \<and> \<lceil>max 0 (2736640461069353 / 2 ^ 45 - 24 * (180 / 100) * (180 / 100)) / (0.5 :: real)\<rceil> = 1"
  by (simp add: plan_eval fl_eval ceiling_eq_iff)

text \<open>
  Claim C1, amended: for every finite weight and height and every BMI, the weeks for Lose
  are \<^verbatim>\<open>Math.ceil(Math.max(0, weightKg - targetWeightKg) / rate)\<close> with \<open>rate\<close> 0.75 when
  \<open>bmi \<ge> 30\<close> and 0.5 otherwise, and the weeks for Gain are
  \<^verbatim>\<open>Math.ceil(Math.max(0, targetWeightKg - weightKg) / 0.35)\<close>, which is 0 when nothing is
  needed. Every operation is the double operation of the program. Here \<open>weightKg\<close> is the
  input weight, not rounded, and \<open>targetWeightKg\<close> is the plan's field: the product
  \<open>targetBmi * h * h\<close> with \<open>h = heightCm / 100\<close>, rounded to one decimal by \<^verbatim>\<open>round1\<close>.
\<close>

theorem C1_weeks_from_rounded_target:
  "estimatedWeeks (buildWorkoutPlan (Finite w) (Finite h) b Lose) =
     Math_ceil (js_div
       (Math_max (Finite 0)
          (js_sub (Finite w) (targetWeightKg (buildWorkoutPlan (Finite w) (Finite h) b Lose))))
       (if js_ge b 30 then Finite 0.75 else Finite 0.5))
   \<and> targetWeightKg (buildWorkoutPlan (Finite w) (Finite h) b Lose) =
       round1 (js_mul (js_mul (Finite 24) (js_div (Finite h) (Finite 100)))
                 (js_div (Finite h) (Finite 100)))
   \<and> estimatedWeeks (buildWorkoutPlan (Finite w) (Finite h) b Gain) =
     Math_ceil (js_div
       (Math_max (Finite 0)
          (js_sub (targetWeightKg (buildWorkoutPlan (Finite w) (Finite h) b Gain)) (Finite w)))
       (fl 0.35))
   \<and> targetWeightKg (buildWorkoutPlan (Finite w) (Finite h) b Gain) =
       round1 (js_mul (js_mul (Finite 20) (js_div (Finite h) (Finite 100)))
                 (js_div (Finite h) (Finite 100)))"
proof -
  have l: "js_sub (Finite w) (targetWeightKg (buildWorkoutPlan (Finite w) (Finite h) b Lose)) \<noteq> NaN"
    by (intro js_sub_left_not_NaN target_not_NaN)
  have g: "js_sub (targetWeightKg (buildWorkoutPlan (Finite w) (Finite h) b Gain)) (Finite w) \<noteq> NaN"
    by (intro js_sub_right_not_NaN target_not_NaN)
  have r: "(if js_ge b 30 then Finite 0.75 else Finite 0.5)
           = Finite (if js_ge b 30 then 0.75 else 0.5)" by simp
  have "(if js_ge b 30 then 0.75 else 0.5 :: real) \<noteq> 0" by simp
  note a = weeks_of_need [OF l this]
  have "(3152519739159347 / 2 ^ 53 :: real) \<noteq> 0" by simp
  note b = weeks_of_need [OF g this]
  show ?thesis
    unfolding bwp_weeks_Lose bwp_weeks_Gain r literals_are_doubles(12) a b
    by (simp add: bwp_targetWeightKg bwp_targetBmi weightForBmi_def Let_def)
qed

text \<open>
  Claim C2 says that, for Lose at a fixed height and with the BMI computed from weight
  and height, a heavier weight never gets fewer weeks. The loss rate rises from 0.5 to
  0.75 kg a week when the BMI reaches 30, and the weeks drop there: at 180 cm, 97 kg
  (BMI 29.9) needs 39 weeks and 98 kg (BMI 30.2) needs 27.
\<close>

theorem C2_counterexample:
  "calculateBmi (Finite 97) (Finite 180) = Finite (8426874302757293 / 2 ^ 48)
   \<and> calculateBmi (Finite 98) (Finite 180) = Finite (1064218661946153 / 2 ^ 45)
   \<and> targetWeightKg (buildWorkoutPlan (Finite 97) (Finite 180)
         (calculateBmi (Finite 97) (Finite 180)) Lose) = Finite (5474688297022259 / 2 ^ 46)
   \<and> estimatedWeeks (buildWorkoutPlan (Finite 97) (Finite 180)
         (calculateBmi (Finite 97) (Finite 180)) Lose) = Finite 39
   \<and> estimatedWeeks (buildWorkoutPlan (Finite 98) (Finite 180)
         (calculateBmi (Finite 98) (Finite 180)) Lose) = Finite 27
   \<and> \<not> js_le
         (estimatedWeeks (buildWorkoutPlan (Finite 97) (Finite 180)
            (calculateBmi (Finite 97) (Finite 180)) Lose))
         (estimatedWeeks (buildWorkoutPlan (Finite 98) (Finite 180)
            (calculateBmi (Finite 98) (Finite 180)) Lose))"
  by (simp add: plan_eval fl_eval)

text \<open>
  Claim C2, amended: for Lose at a fixed height, if \<open>w1 \<le> w2\<close> and the two BMIs are
  both below 30 or both at least 30 (so that one loss rate applies to both), the weeks at
  \<open>w1\<close> are at most the weeks at \<open>w2\<close>; and a weight equal to the plan's \<^verbatim>\<open>targetWeightKg\<close>
  gets 0 weeks. This holds for any height and any two such BMIs, in particular for those
  computed from the weights by the canonical formula, and for weights below the target
  as well.
\<close>

theorem C2_weeks_monotone_same_rate:
  assumes "w1 \<le> w2" and "js_ge b1 30 = js_ge b2 30"
  shows "js_le (estimatedWeeks (buildWorkoutPlan (Finite w1) h b1 Lose))
               (estimatedWeeks (buildWorkoutPlan (Finite w2) h b2 Lose))
         \<and> estimatedWeeks
             (buildWorkoutPlan (targetWeightKg (buildWorkoutPlan w h b Lose)) h b' Lose)
           = Finite 0"
proof
  define T where "T = targetWeightKg (buildWorkoutPlan w h b Lose)"
  have T1: "targetWeightKg (buildWorkoutPlan (Finite w1) h b1 Lose) = T"
    and T2: "targetWeightKg (buildWorkoutPlan (Finite w2) h b2 Lose) = T"
    and T3: "targetWeightKg (buildWorkoutPlan T h b' Lose) = T"
    unfolding T_def by (rule targetWeightKg_indep)+
  define r :: real where "r = (if js_ge b2 30 then 0.75 else 0.5)"
  have r: "0 < r" by (simp add: r_def)
  show "js_le (estimatedWeeks (buildWorkoutPlan (Finite w1) h b1 Lose))
              (estimatedWeeks (buildWorkoutPlan (Finite w2) h b2 Lose))"
  proof (cases "T = NaN")
    case True
    then show ?thesis by (simp add: bwp_weeks_Lose T1 T2)
  next
    case False
    with assms(1) have "js_le (js_sub (Finite w1) T) (js_sub (Finite w2) T)"
      by (rule js_sub_mono_left)
    then show ?thesis
      unfolding bwp_weeks_Lose T1 T2 assms(2) r_def [symmetric]
      using r by (rule weeks_of_need_mono)
  qed
  have "Math_max (Finite 0) (js_sub T T) = Finite 0 \<or> Math_max (Finite 0) (js_sub T T) = NaN"
    by (cases T) simp_all
  then show "estimatedWeeks (buildWorkoutPlan T h b' Lose) = Finite 0"
    unfolding bwp_weeks_Lose T3 by auto
qed

theorem C2_weeks_monotone_same_rate_witness:
  "(90 :: real) \<le> 95
   \<and> js_ge (calculateBmi (Finite 90) (Finite 180)) 30
     = js_ge (calculateBmi (Finite 95) (Finite 180)) 30
   \<and> js_le (estimatedWeeks (buildWorkoutPlan (Finite 90) (Finite 180)
               (calculateBmi (Finite 90) (Finite 180)) Lose))
            (estimatedWeeks (buildWorkoutPlan (Finite 95) (Finite 180)
               (calculateBmi (Finite 95) (Finite 180)) Lose))
   \<and> estimatedWeeks
       (buildWorkoutPlan
          (targetWeightKg (buildWorkoutPlan (Finite 90) (Finite 180)
             (calculateBmi (Finite 90) (Finite 180)) Lose))
          (Finite 180) (Finite 24) Lose) = Finite 0"
proof -
  have b: "js_ge (calculateBmi (Finite 90) (Finite 180)) 30
         = js_ge (calculateBmi (Finite 95) (Finite 180)) 30"
    by (simp add: calculateBmi_def fl_eval)
  have "(90 :: real) \<le> 95" by simp
  from C2_weeks_monotone_same_rate [OF this b] b show ?thesis by simp
qed

section \<open>The target weight fed back through the BMI formula\<close>

text \<open>
  Claim C3 says that the BMI of the plan's rounded target weight is within 0.05 of the
  goal's target BMI at every positive height. Rounding moves the weight by up to
  0.05 kg, and the division by the squared height in metres enlarges that when the height
  is below one metre: at 80 cm the target weight for Lose is 15.36 kg, rounded to 15.4 kg,
  and its BMI is 24.0625 (in doubles, the double just below it).
\<close>

theorem C3_counterexample:
  "calculateBmi
     (targetWeightKg (buildWorkoutPlan (Finite 20) (Finite 80)
        (calculateBmi (Finite 20) (Finite 80)) Lose))
     (Finite 80)
     = Finite (6772991627100159 / 2 ^ 48)
   \<and> \<not> \<bar>6772991627100159 / 2 ^ 48 - 24\<bar> \<le> (0.05 :: real)"
  by (simp add: plan_eval fl_eval)

text \<open>
  The proof of the bound follows the seven roundings of the round trip. Each rounding
  changes a value of at least 1 by at most one part in \<open>10\<^sup>1\<^sup>5\<close>. When the squared height
  is at least 1.001, the rounding to one decimal contributes at most \<open>0.05 / 1.001\<close> and
  the roundings of the doubles fit into the rest. Below 1.001 the rounded target weight is
  exactly the target BMI, and the quotient is off by at most \<open>24 * 0.002\<close>.
\<close>

lemma arith_chain_up:
  fixes P :: real
  assumes "0 \<le> P" and "au \<le> P * (1 + 1 / 10 ^ 15)" and "x \<le> au * (1 + 1 / 10 ^ 15)"
    and "y \<le> x * 10 * (1 + 1 / 10 ^ 15)"
  shows "y \<le> P * (10 + 1 / 10 ^ 13)"
  using assms by simp

lemma arith_chain_lo:
  fixes P :: real
  assumes "0 \<le> P" and "P * (1 - 1 / 10 ^ 15) \<le> au" and "au * (1 - 1 / 10 ^ 15) \<le> x"
    and "x * 10 * (1 - 1 / 10 ^ 15) \<le> y"
  shows "P * (10 - 1 / 10 ^ 13) \<le> y"
  using assms by simp

lemma arith_far_up:
  fixes P :: real
  assumes "20 * s \<le> P" and "P \<le> 24 * s" and "1001 / 1000 \<le> s"
    and "y \<le> P * (10 + 1 / 10 ^ 13)" and "m \<le> y + 1 / 2"
    and "T \<le> m / 10 * (1 + 1 / 10 ^ 15)"
    and "P * (1 - 1 / 10 ^ 15) + s * (1 - 1 / 10 ^ 15) / 20 \<le> Z"
  shows "T * (1 + 1 / 10 ^ 15) \<le> Z"
  using assms by simp

lemma arith_far_lo:
  fixes P :: real
  assumes "20 * s \<le> P" and "P \<le> 24 * s" and "1001 / 1000 \<le> s"
    and "P * (10 - 1 / 10 ^ 13) \<le> y" and "y - 1 / 2 < m"
    and "m / 10 * (1 - 1 / 10 ^ 15) \<le> T"
    and "Z \<le> P * (1 + 1 / 10 ^ 15) - s * (1 + 1 / 10 ^ 15) / 20"
  shows "Z \<le> T * (1 - 1 / 10 ^ 15)"
  using assms by simp

lemma arith_far_q:
  fixes P :: real
  assumes "20 * s \<le> P" and "1001 / 1000 \<le> s"
    and "P * (10 - 1 / 10 ^ 13) \<le> y" and "y - 1 / 2 < m"
    and "m / 10 * (1 - 1 / 10 ^ 15) \<le> T"
    and "q \<le> s * (1 + 1 / 10 ^ 15)"
  shows "q \<le> T"
  using assms by simp

lemma arith_near_y:
  fixes P :: real
  assumes "P \<le> tb * (1001 / 1000)" and "tb \<le> 24" and "y \<le> P * (10 + 1 / 10 ^ 13)"
  shows "y < tb * 10 + 1 / 2"
  using assms by simp

lemma arith_near_q:
  fixes s :: real
  assumes "s < 1001 / 1000" and "q \<le> s * (1 + 1 / 10 ^ 15)"
  shows "q \<le> 1002 / 1000"
  using assms by simp

lemma arith_near_tb:
  fixes tb :: real
  assumes "20 \<le> tb" and "tb \<le> 24"
  shows "(tb - 1 / 20) * (1002 / 1000) \<le> tb * (1 - 1 / 10 ^ 15)"
    and "tb * (1 + 1 / 10 ^ 15) \<le> (tb + 1 / 20) * 1"
  using assms by simp_all


lemma inversion_core:
  fixes h :: real and t :: int
  assumes h1: "100 \<le> h" and h2: "h \<le> 10 ^ 150" and t1: "20 \<le> t" and t2: "t \<le> 24"
  shows "\<exists>v. calculateBmi (round1 (weightForBmi (Finite h) (Finite (of_int t)))) (Finite h)
               = Finite v \<and> \<bar>v - of_int t\<bar> \<le> 1 / 20"
proof -
  define tb :: real where "tb = of_int t"
  have tb1: "20 \<le> tb" and tb2: "tb \<le> 24" using t1 t2 by (simp_all add: tb_def)
  note B = fl_pos_bounds

  \<comment> \<open>the height in metres\<close>
  define u where "u = rnd (h / 100)"
  have hu: "1 \<le> h / 100" "h / 100 \<le> 10 ^ 301" using h1 h2 by simp_all
  have u_fl: "fl (h / 100) = Finite u" unfolding u_def using hu by (rule B)
  have u1: "1 \<le> u" unfolding u_def using hu by (rule B)
  have "u \<le> 2 * (h / 100)" unfolding u_def using hu by (rule B)
  moreover have "2 * (h / 100) \<le> 2 * 10 ^ 148" using h2 by simp
  ultimately have u2: "u \<le> 2 * 10 ^ 148" by (rule order_trans)
  define s where "s = u * u"
  have "1 * 1 \<le> u * u" using u1 by (intro mult_mono) simp_all
  then have s1: "1 \<le> s" by (simp add: s_def)
  have "u * u \<le> (2 * 10 ^ 148) * (2 * 10 ^ 148)" using u1 u2 by (intro mult_mono) simp_all
  then have s2: "s \<le> 4 * 10 ^ 296" by (simp add: s_def)
  define P where "P = tb * s"
  have P1: "20 * s \<le> P" unfolding P_def using tb1 s1 by (intro mult_right_mono) simp_all
  have P2: "P \<le> 24 * s" unfolding P_def using tb2 s1 by (intro mult_right_mono) simp_all
  have P0: "0 \<le> P" using P1 s1 by linarith

  \<comment> \<open>the target BMI times the height\<close>
  define a where "a = rnd (tb * u)"
  have "tb * 1 \<le> tb * u" using u1 tb1 by (intro mult_left_mono) simp_all
  then have tu1: "tb \<le> tb * u" by simp
  have "tb * u \<le> 24 * (2 * 10 ^ 148)" using tb1 tb2 u1 u2 by (intro mult_mono) simp_all
  then have tu2: "tb * u \<le> 48 * 10 ^ 148" by simp
  have tu: "1 \<le> tb * u" "tb * u \<le> 10 ^ 301"
  proof -
    show "1 \<le> tb * u" using tu1 tb1 by linarith
    show "tb * u \<le> 10 ^ 301" using tu2 by (rule order_trans) simp
  qed
  have a_fl: "fl (tb * u) = Finite a" unfolding a_def using tu by (rule B)
  have a_lo: "tb * u * (1 - 1 / 10 ^ 15) \<le> a" unfolding a_def using tu by (rule B)
  have a_up: "a \<le> tb * u * (1 + 1 / 10 ^ 15)" unfolding a_def using tu by (rule B)
  have "rnd tb \<le> rnd (tb * u)" using tu1 by (rule rnd_mono)
  moreover have rtb: "rnd tb = tb" unfolding tb_def using t1 t2 by (intro rnd_of_int) simp
  ultimately have a1: "tb \<le> a" by (simp add: a_def)
  have "a \<le> 2 * (tb * u)" unfolding a_def using tu by (rule B)
  then have a2: "a \<le> 96 * 10 ^ 148" using tu2 by simp

  \<comment> \<open>the exact target weight\<close>
  define x where "x = rnd (a * u)"
  have "a * 1 \<le> a * u" using u1 a1 tb1 by (intro mult_left_mono) simp_all
  then have au1: "tb \<le> a * u" using a1 by simp
  have "a * u \<le> (96 * 10 ^ 148) * (2 * 10 ^ 148)"
    using a1 a2 tb1 u1 u2 by (intro mult_mono) simp_all
  then have au2: "a * u \<le> 192 * 10 ^ 296" by simp
  have au: "1 \<le> a * u" "a * u \<le> 10 ^ 301"
  proof -
    show "1 \<le> a * u" using au1 tb1 by linarith
    show "a * u \<le> 10 ^ 301" using au2 by (rule order_trans) simp
  qed
  have x_fl: "fl (a * u) = Finite x" unfolding x_def using au by (rule B)
  have x_lo: "a * u * (1 - 1 / 10 ^ 15) \<le> x" unfolding x_def using au by (rule B)
  have x_up: "x \<le> a * u * (1 + 1 / 10 ^ 15)" unfolding x_def using au by (rule B)
  have "rnd tb \<le> rnd (a * u)" using au1 by (rule rnd_mono)
  then have x1: "tb \<le> x" using rtb by (simp add: x_def)
  have "x \<le> 2 * (a * u)" unfolding x_def using au by (rule B)
  then have x2: "x \<le> 384 * 10 ^ 296" using au2 by simp
  have "tb * u * (1 - 1 / 10 ^ 15) * u \<le> a * u" using a_lo u1 by (intro mult_right_mono) simp_all
  moreover have "tb * u * (1 - 1 / 10 ^ 15) * u = P * (1 - 1 / 10 ^ 15)"
    unfolding P_def s_def by (simp only: mult_ac)
  ultimately have au_lo: "P * (1 - 1 / 10 ^ 15) \<le> a * u" by (simp only:)
  have "a * u \<le> tb * u * (1 + 1 / 10 ^ 15) * u" using a_up u1 by (intro mult_right_mono) simp_all
  moreover have "tb * u * (1 + 1 / 10 ^ 15) * u = P * (1 + 1 / 10 ^ 15)"
    unfolding P_def s_def by (simp only: mult_ac)
  ultimately have au_up: "a * u \<le> P * (1 + 1 / 10 ^ 15)" by (simp only:)

  \<comment> \<open>times ten\<close>
  define y where "y = rnd (x * 10)"
  have xt2: "x * 10 \<le> 3840 * 10 ^ 296" using x2 by simp
  have xt: "1 \<le> x * 10" "x * 10 \<le> 10 ^ 301"
  proof -
    show "1 \<le> x * 10" using x1 tb1 by linarith
    show "x * 10 \<le> 10 ^ 301" using xt2 by (rule order_trans) simp
  qed
  have y_fl: "fl (x * 10) = Finite y" unfolding y_def using xt by (rule B)
  have y_lo: "x * 10 * (1 - 1 / 10 ^ 15) \<le> y" unfolding y_def using xt by (rule B)
  have y_up: "y \<le> x * 10 * (1 + 1 / 10 ^ 15)" unfolding y_def using xt by (rule B)
  have "real_of_int (t * 10) \<le> x * 10" using x1 by (simp add: tb_def)
  then have "rnd (of_int (t * 10)) \<le> rnd (x * 10)" by (rule rnd_mono)
  moreover have "rnd (of_int (t * 10)) = of_int (t * 10)" using t1 t2 by (intro rnd_of_int) simp
  ultimately have y1: "of_int (t * 10) \<le> y" by (simp only: y_def)
  have "y \<le> 2 * (x * 10)" unfolding y_def using xt by (rule B)
  then have y2: "y \<le> 7680 * 10 ^ 296" using xt2 by linarith
  have yP_up: "y \<le> P * (10 + 1 / 10 ^ 13)" using P0 au_up x_up y_up by (rule arith_chain_up)
  have yP_lo: "P * (10 - 1 / 10 ^ 13) \<le> y" using P0 au_lo x_lo y_lo by (rule arith_chain_lo)

  \<comment> \<open>rounded to an integer and divided by ten\<close>
  define m where "m = \<lfloor>y + 1 / 2\<rfloor>"
  have m_up: "of_int m \<le> y + 1 / 2" and m_lo: "y - 1 / 2 < of_int m"
    unfolding m_def by linarith+
  have "real_of_int (t * 10) \<le> y + 1 / 2" using y1 by linarith
  then have m1: "t * 10 \<le> m" unfolding m_def by (simp only: le_floor_iff)
  define T where "T = rnd (of_int m / 10)"
  have "200 \<le> m" using m1 t1 by simp
  then have mr: "200 \<le> real_of_int m" by simp
  have mt2: "real_of_int m / 10 \<le> 7681 * 10 ^ 295" using m_up y2 by simp
  have mt: "1 \<le> real_of_int m / 10" "real_of_int m / 10 \<le> 10 ^ 301"
  proof -
    show "1 \<le> real_of_int m / 10" using mr by simp
    show "real_of_int m / 10 \<le> 10 ^ 301" using mt2 by (rule order_trans) simp
  qed
  have T_fl: "fl (of_int m / 10) = Finite T" unfolding T_def using mt by (rule B)
  have T_lo: "of_int m / 10 * (1 - 1 / 10 ^ 15) \<le> T" unfolding T_def using mt by (rule B)
  have T_up: "T \<le> of_int m / 10 * (1 + 1 / 10 ^ 15)" unfolding T_def using mt by (rule B)
  have T1: "1 \<le> T" unfolding T_def using mt by (rule B)
  have "T \<le> 2 * (of_int m / 10)" unfolding T_def using mt by (rule B)
  then have "T \<le> 15362 * 10 ^ 295" using mt2 by linarith
  then have T2: "T \<le> 10 ^ 300" by (rule order_trans) simp

  \<comment> \<open>the squared height\<close>
  define q where "q = rnd (u * u)"
  have ss: "1 \<le> u * u" "u * u \<le> 10 ^ 301"
  proof -
    show "1 \<le> u * u" using s1 by (simp add: s_def)
    show "u * u \<le> 10 ^ 301" using s2 [unfolded s_def] by (rule order_trans) simp
  qed
  have q_fl: "fl (u * u) = Finite q" unfolding q_def using ss by (rule B)
  have q_lo: "s * (1 - 1 / 10 ^ 15) \<le> q" unfolding q_def s_def using ss by (rule B)
  have q_up: "q \<le> s * (1 + 1 / 10 ^ 15)" unfolding q_def s_def using ss by (rule B)
  have q1: "1 \<le> q" unfolding q_def using ss by (rule B)

  \<comment> \<open>what the program computes\<close>
  have tw: "round1 (weightForBmi (Finite h) (Finite (of_int t))) = Finite T"
    by (simp add: round1_def weightForBmi_def Let_def u_fl a_fl [unfolded tb_def]
        x_fl y_fl m_def [symmetric] T_fl)
  have q0: "q \<noteq> 0" using q1 by simp
  have cb: "calculateBmi (Finite T) (Finite h) = fl (T / q)"
    by (simp add: calculateBmi_def Let_def u_fl q_fl q0)

  \<comment> \<open>the two bounds, as products\<close>
  have Tq: "(tb - 1 / 20) * q \<le> T * (1 - 1 / 10 ^ 15)
            \<and> T * (1 + 1 / 10 ^ 15) \<le> (tb + 1 / 20) * q \<and> q \<le> T"
  proof (cases "s < 1001 / 1000")
    case True
    have "P \<le> tb * (1001 / 1000)"
      unfolding P_def using True tb1 by (intro mult_left_mono) simp_all
    then have "y < tb * 10 + 1 / 2" using tb2 yP_up by (rule arith_near_y)
    then have "y + 1 / 2 < real_of_int (t * 10) + 1" by (simp add: tb_def)
    moreover have "real_of_int (t * 10) \<le> y + 1 / 2" using y1 by linarith
    ultimately have "m = t * 10" unfolding m_def by (intro floor_unique)
    then have "real_of_int m / 10 = of_int t" by simp
    then have "T = rnd (of_int t)" by (simp only: T_def)
    then have TT: "T = tb" using rtb by (simp only: tb_def)
    have qq: "q \<le> 1002 / 1000" using True q_up by (rule arith_near_q)
    have "(tb - 1 / 20) * q \<le> (tb - 1 / 20) * (1002 / 1000)"
      using qq tb1 by (intro mult_left_mono) simp_all
    moreover note arith_near_tb [OF tb1 tb2]
    moreover have "(tb + 1 / 20) * 1 \<le> (tb + 1 / 20) * q"
      using q1 tb1 by (intro mult_left_mono) simp_all
    moreover have "q \<le> tb" using qq tb1 by linarith
    ultimately show ?thesis unfolding TT by linarith
  next
    case False
    then have sB: "1001 / 1000 \<le> s" by simp
    have "(tb + 1 / 20) * (s * (1 - 1 / 10 ^ 15)) \<le> (tb + 1 / 20) * q"
      using q_lo tb1 by (intro mult_left_mono) simp_all
    moreover have "(tb + 1 / 20) * (s * (1 - 1 / 10 ^ 15))
                 = P * (1 - 1 / 10 ^ 15) + s * (1 - 1 / 10 ^ 15) / 20"
      unfolding P_def by (simp only: distrib_right) (simp only: mult_ac times_divide_eq_left mult_1)
    ultimately have Zp: "P * (1 - 1 / 10 ^ 15) + s * (1 - 1 / 10 ^ 15) / 20 \<le> (tb + 1 / 20) * q"
      by (simp only:)
    have "(tb - 1 / 20) * q \<le> (tb - 1 / 20) * (s * (1 + 1 / 10 ^ 15))"
      using q_up tb1 by (intro mult_left_mono) simp_all
    moreover have "(tb - 1 / 20) * (s * (1 + 1 / 10 ^ 15))
                 = P * (1 + 1 / 10 ^ 15) - s * (1 + 1 / 10 ^ 15) / 20"
      unfolding P_def by (simp only: left_diff_distrib) (simp only: mult_ac times_divide_eq_left mult_1)
    ultimately have Zm: "(tb - 1 / 20) * q \<le> P * (1 + 1 / 10 ^ 15) - s * (1 + 1 / 10 ^ 15) / 20"
      by (simp only:)
    have "T * (1 + 1 / 10 ^ 15) \<le> (tb + 1 / 20) * q"
      using P1 P2 sB yP_up m_up T_up Zp by (rule arith_far_up)
    moreover have "(tb - 1 / 20) * q \<le> T * (1 - 1 / 10 ^ 15)"
      using P1 P2 sB yP_lo m_lo T_lo Zm by (rule arith_far_lo)
    moreover have "q \<le> T" using P1 sB yP_lo m_lo T_lo q_up by (rule arith_far_q)
    ultimately show ?thesis by simp
  qed

  \<comment> \<open>the quotient\<close>
  define v where "v = rnd (T / q)"
  have q_pos: "0 < q" using q1 by simp
  have "1 \<le> T / q" using Tq q_pos by simp
  moreover have "T / q \<le> T / 1" using q1 T1 by (intro divide_left_mono) simp_all
  then have "T / q \<le> 10 ^ 300" using T2 by simp
  then have "T / q \<le> 10 ^ 301" by (rule order_trans) simp
  ultimately have tq: "1 \<le> T / q" "T / q \<le> 10 ^ 301" by simp_all
  have v_fl: "fl (T / q) = Finite v" unfolding v_def using tq by (rule B)
  have v_lo: "T / q * (1 - 1 / 10 ^ 15) \<le> v" unfolding v_def using tq by (rule B)
  have v_up: "v \<le> T / q * (1 + 1 / 10 ^ 15)" unfolding v_def using tq by (rule B)
  have "T * (1 + 1 / 10 ^ 15) / q \<le> tb + 1 / 20"
    using Tq q_pos by (simp only: pos_divide_le_eq)
  moreover have "T / q * (1 + 1 / 10 ^ 15) = T * (1 + 1 / 10 ^ 15) / q" by simp
  ultimately have "v \<le> tb + 1 / 20" using v_up by linarith
  moreover have "tb - 1 / 20 \<le> T * (1 - 1 / 10 ^ 15) / q"
    using Tq q_pos by (simp only: pos_le_divide_eq)
  moreover have "T / q * (1 - 1 / 10 ^ 15) = T * (1 - 1 / 10 ^ 15) / q" by simp
  ultimately have "\<bar>v - tb\<bar> \<le> 1 / 20" using v_lo by (simp only: abs_le_iff) linarith
  then show ?thesis using tw cb v_fl by (simp add: tb_def)
qed

text \<open>
  Claim C3, amended: for every height from 100 cm to \<open>10\<^sup>1\<^sup>5\<^sup>0\<close> cm, every weight, BMI and
  goal, \<^verbatim>\<open>calculateBmi\<close> of the plan's \<^verbatim>\<open>targetWeightKg\<close> at that height is a finite number that
  differs from the goal's target BMI (24 for Lose, 20 for Gain, 22 for Fit) by at most
  0.05. From about \<open>10\<^sup>1\<^sup>5\<^sup>5\<close> cm the target weight overflows to infinity.
\<close>

theorem C3_target_weight_inversion:
  assumes "100 \<le> h" and "h \<le> 10 ^ 150"
  shows "\<exists>v. calculateBmi (targetWeightKg (buildWorkoutPlan w (Finite h) b g)) (Finite h)
               = Finite v
             \<and> \<bar>v - (case g of Lose \<Rightarrow> 24 | Gain \<Rightarrow> 20 | Fit \<Rightarrow> 22)\<bar> \<le> 0.05"
proof (cases g)
  case Lose
  then show ?thesis
    using inversion_core [OF assms, of 24] by (simp add: bwp_targetWeightKg bwp_targetBmi)
next
  case Gain
  then show ?thesis
    using inversion_core [OF assms, of 20] by (simp add: bwp_targetWeightKg bwp_targetBmi)
next
  case Fit
  then show ?thesis
    using inversion_core [OF assms, of 22] by (simp add: bwp_targetWeightKg bwp_targetBmi)
qed

theorem C3_target_weight_inversion_witness:
  "(100 :: real) \<le> 180 \<and> (180 :: real) \<le> 10 ^ 150
   \<and> (\<exists>v. calculateBmi
            (targetWeightKg (buildWorkoutPlan (Finite 90) (Finite 180)
               (calculateBmi (Finite 90) (Finite 180)) Lose))
            (Finite 180) = Finite v
          \<and> \<bar>v - 24\<bar> \<le> 0.05)"
proof -
  have "(100 :: real) \<le> 180" and "(180 :: real) \<le> 10 ^ 150" by simp_all
  from C3_target_weight_inversion [OF this, of "Finite 90" "calculateBmi (Finite 90) (Finite 180)" Lose]
  show ?thesis by simp
qed

section \<open>The weight delta\<close>

text \<open>
  Claim C4 says that \<^verbatim>\<open>deltaKg\<close> is the rounded difference between \<^verbatim>\<open>targetWeightKg\<close> and
  the rounded \<^verbatim>\<open>currentWeightKg\<close>. The builder subtracts the input weight as given and
  rounds afterwards. At 200 cm with goal Gain the target is 80 kg; for 70.25 kg the
  builder rounds 9.75 up to 9.8, while the rounded weight 70.3 gives 9.7. Every value up
  to the rounding is a double, so no rounding of doubles is involved.
\<close>

theorem C4_counterexample:
  "deltaKg (buildWorkoutPlan (Finite 70.25) (Finite 200)
      (calculateBmi (Finite 70.25) (Finite 200)) Gain) = Finite (2758454771764429 / 2 ^ 48)
   \<and> round1 (js_sub
         (targetWeightKg (buildWorkoutPlan (Finite 70.25) (Finite 200)
            (calculateBmi (Finite 70.25) (Finite 200)) Gain))
         (round1 (Finite 70.25))) = Finite (2730307274093363 / 2 ^ 48)
   \<and> deltaKg (buildWorkoutPlan (Finite 70.25) (Finite 200)
         (calculateBmi (Finite 70.25) (Finite 200)) Gain)
     \<noteq> round1 (js_sub
         (targetWeightKg (buildWorkoutPlan (Finite 70.25) (Finite 200)
            (calculateBmi (Finite 70.25) (Finite 200)) Gain))
         (round1 (Finite 70.25)))
   \<and> fl 9.8 = Finite (2758454771764429 / 2 ^ 48)
   \<and> fl 9.7 = Finite (2730307274093363 / 2 ^ 48)
   \<and> is_double 70.25"
  by (simp add: plan_eval fl_eval is_double_def)

text \<open>
  Claim C4, amended: for every weight, height, BMI and goal, \<^verbatim>\<open>deltaKg\<close> is
  \<^verbatim>\<open>round1(round1(targetWeightKg - weightKg))\<close>, where \<open>weightKg\<close> is the input weight as given
  and \<^verbatim>\<open>round1(x)\<close> is \<^verbatim>\<open>Math.round(x * 10) / 10\<close> in double arithmetic, \<^verbatim>\<open>Math.round\<close> taking
  a tie to the larger integer; and \<^verbatim>\<open>currentWeightKg\<close> is \<^verbatim>\<open>round1(weightKg)\<close>.
\<close>

theorem C4_delta_from_raw_weight:
  "deltaKg (buildWorkoutPlan w h b g)
     = round1 (round1 (js_sub (targetWeightKg (buildWorkoutPlan w h b g)) w))
   \<and> currentWeightKg (buildWorkoutPlan w h b g) = round1 w"
  by (simp add: bwp_deltaKg bwp_currentWeightKg)

section \<open>The classifier\<close>

lemmas label_defs = label_underweight_def label_normal_def label_overweight_def
  label_obesity1_def label_obesity2_def label_obesity3_def

lemmas note_defs = note_underweight_def note_normal_def note_overweight_def
  note_obesity1_def note_obesity2_def note_obesity3_def

lemma labels_distinct:
  "distinct [label_underweight, label_normal, label_overweight,
             label_obesity1, label_obesity2, label_obesity3]"
  by (simp add: label_defs)

lemma advisory_notes_distinct:
  "distinct [note_underweight, note_normal, note_overweight,
             note_obesity1, note_obesity2, note_obesity3]"
  by (simp add: note_defs)

text \<open>
  Claim C5: \<^verbatim>\<open>classifyBmi\<close> partitions the finite numbers at the boundaries 18.5, 25, 30,
  35 and 40, and each boundary belongs to the heavier category. A finite \<open>x\<close> gets
  Underweight exactly when \<open>x < 18.5\<close>, Normal weight exactly when \<open>18.5 \<le> x < 25\<close>,
  Overweight exactly when \<open>25 \<le> x < 30\<close>, Obesity class I exactly when \<open>30 \<le> x < 35\<close>,
  Obesity class II exactly when \<open>35 \<le> x < 40\<close> and Obesity class III exactly when
  \<open>40 \<le> x\<close>, each label with its own note. The six labels differ from each other and so
  do the six notes, so every finite \<open>x\<close> gets exactly one category.
\<close>

theorem C5_classifier_partition:
  "(classifyBmi (Finite x) = \<lparr>label = label_underweight, note = note_underweight\<rparr>)
        = (x < 18.5)
   \<and> (classifyBmi (Finite x) = \<lparr>label = label_normal, note = note_normal\<rparr>)
        = (18.5 \<le> x \<and> x < 25)
   \<and> (classifyBmi (Finite x) = \<lparr>label = label_overweight, note = note_overweight\<rparr>)
        = (25 \<le> x \<and> x < 30)
   \<and> (classifyBmi (Finite x) = \<lparr>label = label_obesity1, note = note_obesity1\<rparr>)
        = (30 \<le> x \<and> x < 35)
   \<and> (classifyBmi (Finite x) = \<lparr>label = label_obesity2, note = note_obesity2\<rparr>)
        = (35 \<le> x \<and> x < 40)
   \<and> (classifyBmi (Finite x) = \<lparr>label = label_obesity3, note = note_obesity3\<rparr>)
        = (40 \<le> x)
   \<and> distinct [label_underweight, label_normal, label_overweight,
                label_obesity1, label_obesity2, label_obesity3]
   \<and> distinct [note_underweight, note_normal, note_overweight,
                note_obesity1, note_obesity2, note_obesity3]"
  using labels_distinct advisory_notes_distinct
  by (auto simp add: classifyBmi_def)

text \<open>
  Claim C10 says that a non-finite input falls into the heaviest category. Negative
  infinity is below every threshold and is classified Underweight; \<^verbatim>\<open>calculateBmi\<close>
  returns it for a negative weight at height 0.
\<close>

theorem C10_counterexample:
  "classifyBmi NegInfinity = \<lparr>label = label_underweight, note = note_underweight\<rparr>
   \<and> classifyBmi NegInfinity \<noteq> \<lparr>label = label_obesity3, note = note_obesity3\<rparr>
   \<and> calculateBmi (Finite (- 5)) (Finite 0) = NegInfinity"
  by (simp add: classifyBmi_def calculateBmi_def label_underweight_def label_obesity3_def)

text \<open>
  Claim C10, amended: \<^verbatim>\<open>classifyBmi\<close> returns a category for every non-finite input. Every
  comparison with NaN is false, so NaN passes all five checks and gets Obesity class III
  with its note, and so does positive infinity; negative infinity gets Underweight with
  its note.
\<close>

theorem C10_classify_nonfinite:
  "classifyBmi NaN = \<lparr>label = label_obesity3, note = note_obesity3\<rparr>
   \<and> classifyBmi PosInfinity = \<lparr>label = label_obesity3, note = note_obesity3\<rparr>
   \<and> classifyBmi NegInfinity = \<lparr>label = label_underweight, note = note_underweight\<rparr>"
  by (simp add: classifyBmi_def)

section \<open>The fields that depend on the goal alone\<close>

text \<open>
  For goal Fit the weeks depend on the BMI alone. When the BMI is within 2.5 of 22 it
  lies between 16 and 32, where doubles are multiples of \<open>2\<^sup>-\<^sup>4\<^sup>8\<close>; the difference, its
  double and the sum with 8 are then doubles themselves and no operation rounds.
  Otherwise the sum is at least 13, before and after rounding, and the clamp returns 12.
\<close>

lemma fl_5_2: "fl (5 / 2) = Finite (5 / 2)"
  by (rule fl_exact [where j = 5 and e = "- 1"]) (simp_all add: power_int_minus_divide)

lemma Math_abs_far:
  assumes "5 / 2 \<le> \<bar>x\<bar>"
  shows "js_le (Finite (5 / 2)) (Math_abs (fl x))"
proof (cases "0 \<le> x")
  case True
  then have "js_le (fl (5 / 2)) (fl x)" using assms by (intro fl_mono) simp
  then show ?thesis unfolding fl_5_2 by (cases "fl x") simp_all
next
  case False
  then have "js_le (fl x) (fl (- (5 / 2)))" using assms by (intro fl_mono) simp
  moreover have "fl (- (5 / 2)) = Finite (- (5 / 2))"
    by (rule fl_exact [where j = "- 5" and e = "- 1"]) (simp_all add: power_int_minus_divide)
  ultimately show ?thesis by (cases "fl x") simp_all
qed

lemma fit_weeks_far:
  assumes "5 / 2 \<le> \<bar>22 - b\<bar>"
  shows "clamp (Math_round (js_add (Finite 8)
            (js_mul (Math_abs (js_sub (Finite 22) (Finite b))) (Finite 2))))
           (Finite 8) (Finite 12) = Finite 12"
proof -
  define A where "A = Math_abs (fl (22 - b))"
  have "js_le (Finite (5 / 2)) A" unfolding A_def using assms by (rule Math_abs_far)
  then have "js_le (js_mul (Finite (5 / 2)) (Finite 2)) (js_mul A (Finite 2))"
    by (rule js_mul_two_mono)
  moreover have "fl 5 = Finite 5" using fl_of_int [of 5] by simp
  ultimately have "js_le (Finite 5) (js_mul A (Finite 2))" by simp
  then have "js_le (js_add (Finite 8) (Finite 5)) (js_add (Finite 8) (js_mul A (Finite 2)))"
    by (rule js_add_eight_mono)
  moreover have "fl 13 = Finite 13" using fl_of_int [of 13] by simp
  ultimately have "js_le (Finite 13) (js_add (Finite 8) (js_mul A (Finite 2)))" by simp
  then have "js_le (Math_round (Finite 13))
               (Math_round (js_add (Finite 8) (js_mul A (Finite 2))))"
    by (rule Math_round_mono)
  then have "js_le (Finite 13) (Math_round (js_add (Finite 8) (js_mul A (Finite 2))))"
    by simp
  then have "clamp (Math_round (js_add (Finite 8) (js_mul A (Finite 2))))
               (Finite 8) (Finite 12) = Finite 12"
    by (cases "Math_round (js_add (Finite 8) (js_mul A (Finite 2)))") (simp_all add: clamp_def)
  then show ?thesis by (simp add: A_def)
qed

lemma fit_weeks_near:
  assumes "is_double b" and "\<bar>22 - b\<bar> < 5 / 2"
  shows "clamp (Math_round (js_add (Finite 8)
            (js_mul (Math_abs (js_sub (Finite 22) (Finite b))) (Finite 2))))
           (Finite 8) (Finite 12)
         = Finite (max 8 (min 12 (of_int \<lfloor>8 + \<bar>22 - b\<bar> * 2 + 1 / 2\<rfloor>)))"
proof -
  have "16 \<le> \<bar>b\<bar>" and "\<bar>b\<bar> < 32" using assms(2) by linarith+
  then have "2 powi 4 \<le> \<bar>b\<bar>" and "\<bar>b\<bar> < 2 powi (4 + 1)" by simp_all
  then obtain j where j: "b = of_int j * 2 powi (4 - 52)"
    using double_grid [OF assms(1), of 4] by auto
  have p: "(2::real) powi (4 - 52) = 1 / 2 ^ 48" by (simp add: power_int_minus_divide)
  define d where "d = 22 * 2 ^ 48 - j"
  have d: "22 - b = of_int d * 2 powi (4 - 52)" by (simp add: d_def j p)
  have "\<bar>of_int d * (2::real) powi (4 - 52)\<bar> < 5 / 2" using assms(2) by (simp only: d)
  then have "\<bar>real_of_int d\<bar> < 5 / 2 * 2 ^ 48" by (simp add: p abs_mult field_simps)
  then have dr: "\<bar>real_of_int d\<bar> < 703687441776640" by simp
  then have db: "\<bar>d\<bar> < 703687441776640" by linarith
  have e1: "fl (22 - b) = Finite (22 - b)"
    using d
  proof (rule fl_exact)
    show "\<bar>d\<bar> < 2 ^ 53" using db by simp
    show "- 1074 \<le> (4 - 52 :: int)" by simp
    show "\<bar>22 - b\<bar> \<le> 2 ^ 1023" using assms(2) by simp
  qed
  have "\<bar>22 - b\<bar> * 2 = of_int (2 * \<bar>d\<bar>) * 2 powi (4 - 52)"
    by (simp add: d abs_mult)
  then have e2: "fl (\<bar>22 - b\<bar> * 2) = Finite (\<bar>22 - b\<bar> * 2)"
  proof (rule fl_exact)
    show "\<bar>2 * \<bar>d\<bar>\<bar> < 2 ^ 53" using db by simp
    show "- 1074 \<le> (4 - 52 :: int)" by simp
    show "\<bar>\<bar>22 - b\<bar> * 2\<bar> \<le> 2 ^ 1023" using assms(2) by simp
  qed
  have "8 + \<bar>22 - b\<bar> * 2 = of_int (8 * 2 ^ 48 + 2 * \<bar>d\<bar>) * 2 powi (4 - 52)"
    by (simp add: d abs_mult p field_simps)
  then have e3: "fl (8 + \<bar>22 - b\<bar> * 2) = Finite (8 + \<bar>22 - b\<bar> * 2)"
  proof (rule fl_exact)
    show "\<bar>8 * 2 ^ 48 + 2 * \<bar>d\<bar>\<bar> < 2 ^ 53" using db by simp
    show "- 1074 \<le> (4 - 52 :: int)" by simp
    show "\<bar>8 + \<bar>22 - b\<bar> * 2\<bar> \<le> 2 ^ 1023" using assms(2) by simp
  qed
  show ?thesis by (simp add: e1 e2 e3 clamp_def)
qed

text \<open>
  Claim C6: for goal Fit and every finite double \<open>bmi\<close> the weeks are
  \<open>8 + \<bar>22 - bmi\<bar> * 2\<close>, rounded to the nearest integer and clamped to the interval from 8
  to 12, whatever the weight and the height are; so they are an integer between 8 and
  12. The formula on the right is evaluated exactly.
\<close>

theorem C6_fit_weeks:
  assumes "is_double b"
  shows "estimatedWeeks (buildWorkoutPlan w h (Finite b) Fit)
           = Finite (max 8 (min 12 (of_int (round (8 + \<bar>22 - b\<bar> * 2)))))
         \<and> js_le (Finite 8) (estimatedWeeks (buildWorkoutPlan w h (Finite b) Fit))
         \<and> js_le (estimatedWeeks (buildWorkoutPlan w h (Finite b) Fit)) (Finite 12)
         \<and> max 8 (min 12 (of_int (round (8 + \<bar>22 - b\<bar> * 2)))) \<in> (\<int> :: real set)"
proof -
  have eq: "estimatedWeeks (buildWorkoutPlan w h (Finite b) Fit)
          = Finite (max 8 (min 12 (of_int (round (8 + \<bar>22 - b\<bar> * 2)))))"
  proof (cases "\<bar>22 - b\<bar> < 5 / 2")
    case True
    with assms show ?thesis unfolding bwp_weeks_Fit round_def by (rule fit_weeks_near)
  next
    case False
    then have far: "5 / 2 \<le> \<bar>22 - b\<bar>" by simp
    then have "13 \<le> 8 + \<bar>22 - b\<bar> * 2" by simp
    then have "round (13 :: real) \<le> round (8 + \<bar>22 - b\<bar> * 2)" by (rule round_mono)
    then have "13 \<le> round (8 + \<bar>22 - b\<bar> * 2)" by simp
    then have "(12 :: real) \<le> of_int (round (8 + \<bar>22 - b\<bar> * 2))" by linarith
    then have "max 8 (min 12 (of_int (round (8 + \<bar>22 - b\<bar> * 2)))) = (12 :: real)" by simp
    then show ?thesis using fit_weeks_far [OF far] by (simp add: bwp_weeks_Fit)
  qed
  have "max 8 (min 12 (of_int (round (8 + \<bar>22 - b\<bar> * 2)))) \<in> (\<int> :: real set)"
    by (simp add: max_def min_def)
  then show ?thesis unfolding eq by simp
qed

theorem C6_fit_weeks_witness:
  "is_double 23.25
   \<and> estimatedWeeks (buildWorkoutPlan (Finite 70) (Finite 175) (Finite 23.25) Fit) = Finite 11"
proof -
  have d: "is_double 23.25" by (simp add: is_double_def fl_eval)
  from C6_fit_weeks [OF d, of "Finite 70" "Finite 175"] d show ?thesis
    by (simp add: round_def)
qed

text \<open>
  Claim C7: the target BMI and the gym plan are looked up from the goal and depend on
  nothing else. Lose gives 24 and (strength 3 times 45 minutes, cardio 3 times 35 minutes,
  8000 steps a day), Gain gives 20 and (4 times 55, 2 times 20, 6000), Fit gives 22 and
  (3 times 50, 2 times 25, 7000). The plan's \<^verbatim>\<open>goal\<close> is the goal passed in. This holds for
  every weight, height and BMI, finite or not.
\<close>

theorem C7_fixed_lookups:
  "targetBmi (buildWorkoutPlan w h b Lose) = Finite 24.0
   \<and> gymPlan (buildWorkoutPlan w h b Lose) =
       \<lparr>strengthSessionsPerWeek = Finite 3, strengthMinutesPerSession = Finite 45,
        cardioSessionsPerWeek = Finite 3, cardioMinutesPerSession = Finite 35,
        stepsPerDay = Finite 8000\<rparr>
   \<and> targetBmi (buildWorkoutPlan w h b Gain) = Finite 20.0
   \<and> gymPlan (buildWorkoutPlan w h b Gain) =
       \<lparr>strengthSessionsPerWeek = Finite 4, strengthMinutesPerSession = Finite 55,
        cardioSessionsPerWeek = Finite 2, cardioMinutesPerSession = Finite 20,
        stepsPerDay = Finite 6000\<rparr>
   \<and> targetBmi (buildWorkoutPlan w h b Fit) = Finite 22.0
   \<and> gymPlan (buildWorkoutPlan w h b Fit) =
       \<lparr>strengthSessionsPerWeek = Finite 3, strengthMinutesPerSession = Finite 50,
        cardioSessionsPerWeek = Finite 2, cardioMinutesPerSession = Finite 25,
        stepsPerDay = Finite 7000\<rparr>
   \<and> goal (buildWorkoutPlan w h b g) = g"
  by (simp add: buildWorkoutPlan_def Let_def)

text \<open>
  Claim C8: the notes are fixed by the goal, in number and in order. Lose gives two
  notes, the one on regularity and preserving muscle first and the one on
  contraindications second; Gain gives two, progressive loads and nutrition first and
  short cardio second; Fit gives one. No goal gives none or more than two. The five notes
  are different strings.
\<close>

theorem C8_notes:
  "notes (buildWorkoutPlan w h b Lose) = [note_lose_regularity, note_lose_contraindications]
   \<and> notes (buildWorkoutPlan w h b Gain) = [note_gain_progression, note_gain_cardio]
   \<and> notes (buildWorkoutPlan w h b Fit) = [note_fit_prefix @ note_fit_rest]
   \<and> length (notes (buildWorkoutPlan w h b Lose)) = 2
   \<and> length (notes (buildWorkoutPlan w h b Gain)) = 2
   \<and> length (notes (buildWorkoutPlan w h b Fit)) = 1
   \<and> 1 \<le> length (notes (buildWorkoutPlan w h b g))
   \<and> length (notes (buildWorkoutPlan w h b g)) \<le> 2
   \<and> distinct [note_lose_regularity, note_lose_contraindications, note_gain_progression,
                note_gain_cardio, note_fit_prefix @ note_fit_rest]"
  by (cases g) (simp_all add: buildWorkoutPlan_def Let_def note_lose_regularity_def
      note_lose_contraindications_def note_gain_progression_def note_gain_cardio_def
      note_fit_prefix_def)

section \<open>The goal inferred by the screen\<close>

text \<open>
  Claim C9: from a current measurement the screen suggests Lose when \<open>bmi \<ge> 25\<close>, Gain
  when \<open>bmi < 18.5\<close> and Fit otherwise (also when the BMI is NaN or there is no
  measurement). The effective goal is the suggestion only when the selected goal is Fit
  and the suggestion is not; a selected Lose or Gain is kept whatever the suggestion, and
  a selected Fit with suggestion Fit stays Fit. The plan is built for the effective goal.
\<close>

theorem C9_goal_inference:
  "suggestedGoal (Some \<lparr>bmi = Finite x, weightKg = w, heightCm = h, category = c\<rparr>)
     = (if 25 \<le> x then Lose else if x < 18.5 then Gain else Fit)
   \<and> suggestedGoal (Some \<lparr>bmi = NaN, weightKg = w, heightCm = h, category = c\<rparr>) = Fit
   \<and> suggestedGoal None = Fit
   \<and> effectiveGoal g s = (if g = Fit \<and> s \<noteq> Fit then s else g)
   \<and> effectiveGoal Lose s = Lose
   \<and> effectiveGoal Gain s = Gain
   \<and> effectiveGoal Fit Fit = Fit
   \<and> statsPlan (Some \<lparr>bmi = Finite x, weightKg = w, heightCm = h, category = c\<rparr>) g
       = Some (buildWorkoutPlan w h (Finite x)
           (effectiveGoal g (if 25 \<le> x then Lose else if x < 18.5 then Gain else Fit)))"
  by (simp add: suggestedGoal_def effectiveGoal_def statsPlan_def)

section \<open>Worked examples\<close>

text \<open>
  Three measurements and the plans the builder returns for them: 90 kg at 180 cm with
  goal Lose, 55 kg at 170 cm with goal Gain, and a BMI of 22.86 with goal Fit. A decimal
  that is not a double stands for the double nearest to it. The last example shows three
  inputs where the rounding of doubles decides the result.
\<close>

lemma example_lose:
  "targetWeightKg (buildWorkoutPlan (Finite 90) (Finite 180) (fl 27.8) Lose) = fl 77.8"
  "deltaKg (buildWorkoutPlan (Finite 90) (Finite 180) (fl 27.8) Lose) = fl (- 12.2)"
  "estimatedWeeks (buildWorkoutPlan (Finite 90) (Finite 180) (fl 27.8) Lose) = Finite 25"
  by (simp_all add: plan_eval fl_eval)

lemma example_gain:
  "targetWeightKg (buildWorkoutPlan (Finite 55) (Finite 170) (fl 19.03) Gain) = fl 57.8"
  "estimatedWeeks (buildWorkoutPlan (Finite 55) (Finite 170) (fl 19.03) Gain) = Finite 8"
  by (simp_all add: plan_eval fl_eval)

lemma example_fit:
  "estimatedWeeks (buildWorkoutPlan (Finite 70) (Finite 175) (fl 22.86) Fit) = Finite 10"
  by (simp add: bwp_weeks_Fit clamp_def fl_eval)

lemma example_rounding:
  "estimatedWeeks (buildWorkoutPlan (Finite 59) (Finite 200)
     (calculateBmi (Finite 59) (Finite 200)) Gain) = Finite 61"
  "deltaKg (buildWorkoutPlan (Finite 64.25) (Finite 160)
     (calculateBmi (Finite 64.25) (Finite 160)) Lose) = fl (- 2.9)"
  "calculateBmi (Finite 64) (Finite 160) = fl 24.999999999999996"
  by (simp_all add: plan_eval fl_eval)

end
